theory Spec2Isabelle
  imports Main
begin

section \<open>Values and errors\<close>

text \<open>
  The client of \<^verbatim>\<open>src/cvelib/idr.py\<close> handles three kinds of Python values:
  text, decoded JSON bodies and request parameters. Text is modelled as \<^typ>\<open>string\<close>
  (a list of 8-bit characters), decoded JSON as the datatype below. JSON numbers are
  integers here; a decoded object is the list of its items in insertion order.
\<close>

datatype json =
    JNull
  | JBool bool
  | JNum int
  | JStr string
  | JArr "json list"
  | JObj "(string \<times> json) list"

text \<open>The exceptions of \<^verbatim>\<open>requests.exceptions\<close> that the transport call itself raises.\<close>

datatype requests_exc = Timeout | ConnectionError | OtherRequestException string

text \<open>
  Every exception that can leave a method of the class is a value of \<open>error\<close>:
  \<open>IdrException\<close> is the class of line 6, the others are Python's own.
\<close>

datatype error =
    ValueError string
  | IdrException string
  | RequestsError requests_exc
  | JSONDecodeError
  | KeyError string
  | TypeError


section \<open>Library functions taken as parameters\<close>

text \<open>
  What Python and its libraries compute and this development does not is a field of
  \<open>pylib\<close>: the validation of a bracketed host in \<^verbatim>\<open>urlsplit\<close>
  (\<^verbatim>\<open>_check_bracketed_host\<close>, the message of its \<^verbatim>\<open>ValueError\<close> or \<open>None\<close>), the NFKC
  test of \<^verbatim>\<open>_checknetloc\<close> on a network location that is not ASCII, \<^verbatim>\<open>str()\<close> of a
  decoded JSON value and of a \<^verbatim>\<open>bytes\<close> object, and \<^verbatim>\<open>str.upper()\<close>, whose case mapping
  covers all of Unicode.
\<close>

record pylib =
  check_bracketed_host :: "string \<Rightarrow> string option"
  nfkc_ok :: "string \<Rightarrow> bool"
  str_of_json :: "json \<Rightarrow> string"
  str_of_bytes :: "string \<Rightarrow> string"
  str_upper :: "string \<Rightarrow> string"

section \<open>The client and its construction\<close>

record Idr =
  username :: string
  org :: string
  api_key :: string
  url :: string
  raise_exc :: bool

text \<open>The class attribute \<^verbatim>\<open>ENVS\<close> (lines 13 to 16), read with \<^verbatim>\<open>ENVS.get\<close>.\<close>

definition ENVS :: "string \<rightharpoonup> string" where
  "ENVS = [''prod'' \<mapsto> ''https://cveawg.mitre.org/api/'',
           ''dev'' \<mapsto> ''https://cveawg-dev.mitre.org/api/'']"

text \<open>
  \<^verbatim>\<open>url or self.ENVS.get(env)\<close>: the explicit URL when it is neither \<^verbatim>\<open>None\<close> nor
  the empty string, else the table's entry, which may be \<^verbatim>\<open>None\<close>.
\<close>

definition resolve_url :: "string option \<Rightarrow> string \<Rightarrow> string option" where
  "resolve_url u env =
     (case u of
        Some s \<Rightarrow> (if s \<noteq> [] then Some s else ENVS env)
      | None \<Rightarrow> ENVS env)"

text \<open>
  \<^verbatim>\<open>__init__\<close> (lines 18 to 25). The constructor takes no transport and performs no
  request: it either raises \<^verbatim>\<open>ValueError\<close> or returns the configured client.
\<close>

definition Idr_init ::
  "string \<Rightarrow> string \<Rightarrow> string \<Rightarrow> string \<Rightarrow> string option \<Rightarrow> bool \<Rightarrow> error + Idr" where
  "Idr_init usr organisation key env u raise =
     (case resolve_url u env of
        None \<Rightarrow> Inl (ValueError ''Missing URL for IDR'')
      | Some s \<Rightarrow>
          (if s = [] then Inl (ValueError ''Missing URL for IDR'')
           else Inr \<lparr>username = usr, org = organisation, api_key = key,
                     url = s, raise_exc = raise\<rparr>))"

text \<open>An explicit base URL is given when the argument is a non-empty string.\<close>

definition url_given :: "string option \<Rightarrow> bool" where
  "url_given u = (case u of None \<Rightarrow> False | Some s \<Rightarrow> s \<noteq> [])"

section \<open>Request parameters of the endpoint operations\<close>

text \<open>A parameter dictionary (\<^verbatim>\<open>params\<close>) maps names to values.\<close>

type_synonym params = "string \<rightharpoonup> json"

text \<open>
  \<^verbatim>\<open>reserve\<close>, lines 81 to 87: the dictionary built before the POST. \<open>random\<close> is
  the truth value of the argument.
\<close>

definition reserve_params :: "int \<Rightarrow> bool \<Rightarrow> json \<Rightarrow> json \<Rightarrow> params" where
  "reserve_params count random year owning_cna =
     (let params = [''cve_year'' \<mapsto> year, ''amount'' \<mapsto> JNum count,
                    ''short_name'' \<mapsto> owning_cna]
      in if count > 1
         then params(''batch_type'' \<mapsto>
                JStr (if random then ''nonsequential'' else ''sequential''))
         else params)"

text \<open>Decimal digits of a natural number, and the same padded with zeros to a width.\<close>

fun show_nat :: "nat \<Rightarrow> string" where
  "show_nat n =
     (if n < 10 then [char_of (48 + n)]
      else show_nat (n div 10) @ [char_of (48 + n mod 10)])"

declare show_nat.simps [simp del]





text \<open>
  \<^verbatim>\<open>str.lower()\<close> on ASCII text. \<^verbatim>\<open>urlsplit\<close> calls it on a scheme, which consists of
  ASCII letters, digits and \<^verbatim>\<open>+-.\<close> only.
\<close>

definition lower_char :: "char \<Rightarrow> char" where
  "lower_char c =
     (let n = (of_char c :: nat) in if 65 \<le> n \<and> n \<le> 90 then char_of (n + 32) else c)"

definition lower :: "string \<Rightarrow> string" where
  "lower s = map lower_char s"


section \<open>The URL functions of \<^verbatim>\<open>urllib.parse\<close>\<close>

text \<open>
  \<^verbatim>\<open>http_request\<close> calls \<^verbatim>\<open>urljoin\<close> of Python's standard library. The functions below
  follow CPython 3.11 (\<^verbatim>\<open>Lib/urllib/parse.py\<close>): \<^verbatim>\<open>urlsplit\<close>, \<^verbatim>\<open>urlparse\<close>,
  \<^verbatim>\<open>urlunsplit\<close>, \<^verbatim>\<open>urlunparse\<close> and \<^verbatim>\<open>urljoin\<close>, on text whose characters are bytes.
  The validation of a bracketed host and the NFKC test of \<^verbatim>\<open>_checknetloc\<close> are the
  fields \<open>check_bracketed_host\<close> and \<open>nfkc_ok\<close> of \<open>pylib\<close>.
\<close>

definition uses_relative :: "string list" where
  "uses_relative = [[], ''ftp'', ''http'', ''gopher'', ''nntp'', ''imap'',
                    ''wais'', ''file'', ''https'', ''shttp'', ''mms'',
                    ''prospero'', ''rtsp'', ''rtsps'', ''rtspu'', ''sftp'',
                    ''svn'', ''svn+ssh'', ''ws'', ''wss'']"

definition uses_netloc :: "string list" where
  "uses_netloc = [[], ''ftp'', ''http'', ''gopher'', ''nntp'', ''telnet'',
                  ''imap'', ''wais'', ''file'', ''mms'', ''https'', ''shttp'',
                  ''snews'', ''prospero'', ''rtsp'', ''rtsps'', ''rtspu'', ''rsync'',
                  ''svn'', ''svn+ssh'', ''sftp'', ''nfs'', ''git'', ''git+ssh'',
                  ''ws'', ''wss'']"

definition uses_params :: "string list" where
  "uses_params = [[], ''ftp'', ''hdl'', ''prospero'', ''http'', ''imap'',
                  ''https'', ''shttp'', ''rtsp'', ''rtsps'', ''rtspu'', ''sip'',
                  ''sips'', ''mms'', ''sftp'', ''tel'']"

definition ascii_alpha :: "char \<Rightarrow> bool" where
  "ascii_alpha c =
     (let n = (of_char c :: nat) in (97 \<le> n \<and> n \<le> 122) \<or> (65 \<le> n \<and> n \<le> 90))"

definition scheme_char :: "char \<Rightarrow> bool" where
  "scheme_char c =
     (let n = (of_char c :: nat)
      in ascii_alpha c \<or> (48 \<le> n \<and> n \<le> 57)
         \<or> c = CHR ''+'' \<or> c = CHR ''-'' \<or> c = CHR ''.'')"

definition c0_or_space :: "char \<Rightarrow> bool" where
  "c0_or_space c = ((of_char c :: nat) \<le> 32)"

definition unsafe_byte :: "char \<Rightarrow> bool" where
  "unsafe_byte c = (c = CHR 0x09 \<or> c = CHR 0x0D \<or> c = CHR 0x0A)"

definition lstrip_c0 :: "string \<Rightarrow> string" where
  "lstrip_c0 s = dropWhile c0_or_space s"

definition strip_c0 :: "string \<Rightarrow> string" where
  "strip_c0 s = rev (dropWhile c0_or_space (rev (dropWhile c0_or_space s)))"

definition remove_unsafe :: "string \<Rightarrow> string" where
  "remove_unsafe s = filter (\<lambda>c. \<not> unsafe_byte c) s"

text \<open>\<^verbatim>\<open>s.split(c, 1)\<close> for a \<open>c\<close> that occurs in \<open>s\<close>: the text before and after.\<close>

definition split_first :: "char \<Rightarrow> string \<Rightarrow> string \<times> string" where
  "split_first c s = (takeWhile (\<lambda>x. x \<noteq> c) s, drop 1 (dropWhile (\<lambda>x. x \<noteq> c) s))"

text \<open>
  The scheme test of \<^verbatim>\<open>urlsplit\<close>: with \<open>i\<close> the position of the first colon, a scheme
  is split off when \<open>i > 0\<close>, the first character is an ASCII letter and every character
  before the colon is a scheme character.
\<close>

definition split_scheme :: "string \<Rightarrow> string \<Rightarrow> string \<times> string" where
  "split_scheme u scheme =
     (if CHR '':'' \<in> set u
      then (let pre = takeWhile (\<lambda>x. x \<noteq> CHR '':'') u
            in if pre \<noteq> [] \<and> ascii_alpha (hd pre) \<and> list_all scheme_char pre
               then (lower pre, drop (length pre + 1) u)
               else (scheme, u))
      else (scheme, u))"

definition netloc_delim :: "char \<Rightarrow> bool" where
  "netloc_delim c = (c = CHR ''/'' \<or> c = CHR ''?'' \<or> c = CHR ''#'')"

text \<open>\<^verbatim>\<open>_splitnetloc(url, 2)\<close>: the text from position 2 to the first of \<^verbatim>\<open>/?#\<close>.\<close>

definition splitnetloc :: "string \<Rightarrow> string \<times> string" where
  "splitnetloc u =
     (takeWhile (\<lambda>c. \<not> netloc_delim c) (drop 2 u),
      dropWhile (\<lambda>c. \<not> netloc_delim c) (drop 2 u))"

record split_result =
  sr_scheme :: string
  sr_netloc :: string
  sr_path :: string
  sr_query :: string
  sr_fragment :: string

definition is_ascii :: "string \<Rightarrow> bool" where
  "is_ascii s = list_all (\<lambda>c. (of_char c :: nat) < 128) s"

text \<open>
  The three tests of \<^verbatim>\<open>urlsplit\<close> on the network location, in the order in which they
  raise: unbalanced brackets, \<^verbatim>\<open>_check_bracketed_host\<close> on the text between the
  brackets, and \<^verbatim>\<open>_checknetloc\<close>. The result is the \<^verbatim>\<open>ValueError\<close> raised, if any.
  (In the library the last test runs after the fragment and the query are split off,
  which changes neither the network location nor the test.)
\<close>

definition check_netloc :: "pylib \<Rightarrow> string \<Rightarrow> error option" where
  "check_netloc py netloc =
     (let lb = CHR ''['' \<in> set netloc;
          rb = CHR '']'' \<in> set netloc
      in if (lb \<and> \<not> rb) \<or> (rb \<and> \<not> lb) then Some (ValueError ''Invalid IPv6 URL'')
         else
           (case (if lb \<and> rb
                  then check_bracketed_host py
                         (takeWhile (\<lambda>c. c \<noteq> CHR '']'')
                            (drop 1 (dropWhile (\<lambda>c. c \<noteq> CHR ''['') netloc)))
                  else None) of
              Some msg \<Rightarrow> Some (ValueError msg)
            | None \<Rightarrow>
                if netloc = [] \<or> is_ascii netloc \<or> nfkc_ok py netloc then None
                else Some (ValueError (''netloc '' @ [CHR 0x27] @ netloc @ [CHR 0x27]
                       @ '' contains invalid characters under NFKC normalization''))))"

definition urlsplit :: "pylib \<Rightarrow> string \<Rightarrow> string \<Rightarrow> error + split_result" where
  "urlsplit py u0 scheme0 =
     (let u = remove_unsafe (lstrip_c0 u0);
          scheme = remove_unsafe (strip_c0 scheme0);
          (scheme, u) = split_scheme u scheme;
          (netloc, u) = (if take 2 u = ''//'' then splitnetloc u else ([], u))
      in case check_netloc py netloc of
           Some e \<Rightarrow> Inl e
         | None \<Rightarrow>
             (let (u, fragment) =
                    (if CHR ''#'' \<in> set u then split_first (CHR ''#'') u else (u, []));
                  (u, query) =
                    (if CHR ''?'' \<in> set u then split_first (CHR ''?'') u else (u, []))
              in Inr \<lparr>sr_scheme = scheme, sr_netloc = netloc, sr_path = u,
                        sr_query = query, sr_fragment = fragment\<rparr>))"

text \<open>
  \<^verbatim>\<open>_splitparams\<close>, called when a semicolon occurs in the path: the parameters start at
  the first semicolon after the last slash.
\<close>

definition splitparams :: "string \<Rightarrow> string \<times> string" where
  "splitparams u =
     (if CHR ''/'' \<in> set u
      then (let k = length u - 1 - length (takeWhile (\<lambda>x. x \<noteq> CHR ''/'') (rev u));
                tl_part = drop k u
            in if CHR '';'' \<in> set tl_part
               then (let i = k + length (takeWhile (\<lambda>x. x \<noteq> CHR '';'') tl_part)
                     in (take i u, drop (i + 1) u))
               else (u, []))
      else (let i = length (takeWhile (\<lambda>x. x \<noteq> CHR '';'') u)
            in (take i u, drop (i + 1) u)))"

record parse_result =
  pr_scheme :: string
  pr_netloc :: string
  pr_path :: string
  pr_params :: string
  pr_query :: string
  pr_fragment :: string

definition urlparse :: "pylib \<Rightarrow> string \<Rightarrow> string \<Rightarrow> error + parse_result" where
  "urlparse py u scheme =
     (case urlsplit py u scheme of
        Inl e \<Rightarrow> Inl e
      | Inr r \<Rightarrow>
          (let (p, ps) = (if sr_scheme r \<in> set uses_params \<and> CHR '';'' \<in> set (sr_path r)
                          then splitparams (sr_path r) else (sr_path r, []))
           in Inr \<lparr>pr_scheme = sr_scheme r, pr_netloc = sr_netloc r, pr_path = p,
                    pr_params = ps, pr_query = sr_query r, pr_fragment = sr_fragment r\<rparr>))"

definition urlunsplit :: "string \<Rightarrow> string \<Rightarrow> string \<Rightarrow> string \<Rightarrow> string \<Rightarrow> string" where
  "urlunsplit scheme netloc u query fragment =
     (let u = (if netloc \<noteq> [] \<or> (scheme \<noteq> [] \<and> scheme \<in> set uses_netloc) \<or> take 2 u = ''//''
               then ''//'' @ netloc @ (if u \<noteq> [] \<and> take 1 u \<noteq> ''/'' then ''/'' @ u else u)
               else u);
          u = (if scheme \<noteq> [] then scheme @ '':'' @ u else u);
          u = (if query \<noteq> [] then u @ ''?'' @ query else u);
          u = (if fragment \<noteq> [] then u @ ''#'' @ fragment else u)
      in u)"

definition urlunparse ::
  "string \<Rightarrow> string \<Rightarrow> string \<Rightarrow> string \<Rightarrow> string \<Rightarrow> string \<Rightarrow> string" where
  "urlunparse scheme netloc u ps query fragment =
     urlunsplit scheme netloc (if ps \<noteq> [] then u @ '';'' @ ps else u) query fragment"

text \<open>\<^verbatim>\<open>s.split('/')\<close> and \<^verbatim>\<open>'/'.join(parts)\<close>.\<close>

fun split_on :: "char \<Rightarrow> string \<Rightarrow> string list" where
  "split_on c [] = [[]]"
| "split_on c (x # xs) =
     (if x = c then [] # split_on c xs
      else (case split_on c xs of
              [] \<Rightarrow> [[x]]
            | s # ss \<Rightarrow> (x # s) # ss))"

fun join :: "char \<Rightarrow> string list \<Rightarrow> string" where
  "join c [] = []"
| "join c [s] = s"
| "join c (s # ss) = s @ [c] @ join c ss"

text \<open>\<^verbatim>\<open>segments[1:-1] = filter(None, segments[1:-1])\<close>.\<close>

definition filter_middle :: "string list \<Rightarrow> string list" where
  "filter_middle segs =
     (if length segs < 2 then segs
      else hd segs # filter (\<lambda>s. s \<noteq> []) (butlast (tl segs)) @ [last segs])"

text \<open>The loop over the segments: \<^verbatim>\<open>..\<close> pops (and is ignored on the empty list).\<close>

definition resolve_step :: "string list \<Rightarrow> string \<Rightarrow> string list" where
  "resolve_step resolved seg =
     (if seg = ''..'' then butlast resolved
      else if seg = ''.'' then resolved
      else resolved @ [seg])"

definition resolve_path :: "string \<Rightarrow> string \<Rightarrow> string" where
  "resolve_path bpath p =
     (let base_parts = split_on (CHR ''/'') bpath;
          base_parts = (if last base_parts \<noteq> [] then butlast base_parts else base_parts);
          segments = (if take 1 p = ''/'' then split_on (CHR ''/'') p
                      else filter_middle (base_parts @ split_on (CHR ''/'') p));
          resolved = foldl resolve_step [] segments;
          resolved = (if last segments = ''.'' \<or> last segments = ''..''
                      then resolved @ [[]] else resolved);
          joined = join (CHR ''/'') resolved
      in if joined \<noteq> [] then joined else ''/'')"

definition urljoin :: "pylib \<Rightarrow> string \<Rightarrow> string \<Rightarrow> error + string" where
  "urljoin py base u =
     (if base = [] then Inr u
      else if u = [] then Inr base
      else
        (case urlparse py base [] of
           Inl e \<Rightarrow> Inl e
         | Inr b \<Rightarrow>
             (case urlparse py u (pr_scheme b) of
                Inl e \<Rightarrow> Inl e
              | Inr r \<Rightarrow>
                  (if pr_scheme r \<noteq> pr_scheme b \<or> pr_scheme r \<notin> set uses_relative
                   then Inr u
                   else if pr_scheme r \<in> set uses_netloc \<and> pr_netloc r \<noteq> []
                   then Inr (urlunparse (pr_scheme r) (pr_netloc r) (pr_path r)
                               (pr_params r) (pr_query r) (pr_fragment r))
                   else
                     (let netloc = (if pr_scheme r \<in> set uses_netloc
                                    then pr_netloc b else pr_netloc r)
                      in if pr_path r = [] \<and> pr_params r = []
                         then Inr (urlunparse (pr_scheme r) netloc (pr_path b) (pr_params b)
                                     (if pr_query r = [] then pr_query b else pr_query r)
                                     (pr_fragment r))
                         else Inr (urlunparse (pr_scheme r) netloc
                                     (resolve_path (pr_path b) (pr_path r))
                                     (pr_params r) (pr_query r) (pr_fragment r)))))))"

section \<open>Transport\<close>

text \<open>
  The keyword arguments that the methods of the class pass on to \<^verbatim>\<open>requests.request\<close>:
  \<^verbatim>\<open>params\<close>, or nothing.
\<close>

record request =
  req_method :: string
  req_url :: string
  req_timeout :: nat
  req_headers :: "(string \<times> string) list"
  req_params :: "params option"

text \<open>
  A \<^verbatim>\<open>requests.Response\<close>: \<open>body_json\<close> is the value of \<^verbatim>\<open>response.json()\<close>, \<open>None\<close>
  when that call raises \<^verbatim>\<open>ValueError\<close> (the body is not JSON).
\<close>

record response =
  status_code :: nat
  reason :: string
  resp_url :: string
  content :: string
  body_json :: "json option"

text \<open>
  \<^verbatim>\<open>requests.request\<close> either raises one of its exceptions (no connection, no answer in
  time) or returns a response. The network is a parameter of the development: a
  \<open>transport\<close> gives the outcome of one call.
\<close>

datatype net_outcome = Raises requests_exc | Responds response

type_synonym transport = "request \<Rightarrow> net_outcome"

text \<open>
  \<^verbatim>\<open>Response.raise_for_status()\<close> of the requests library: an \<^verbatim>\<open>HTTPError\<close> for the
  statuses 400 to 599, holding its message and the response itself.
\<close>

datatype http_error = HTTPError string "response option"

definition raise_for_status :: "response \<Rightarrow> http_error option" where
  "raise_for_status r =
     (if 400 \<le> status_code r \<and> status_code r < 500
      then Some (HTTPError (show_nat (status_code r) @ '' Client Error: '' @ reason r
                              @ '' for url: '' @ resp_url r) (Some r))
      else if 500 \<le> status_code r \<and> status_code r < 600
      then Some (HTTPError (show_nat (status_code r) @ '' Server Error: '' @ reason r
                              @ '' for url: '' @ resp_url r) (Some r))
      else None)"

text \<open>
  \<^verbatim>\<open>http_request\<close>, lines 27 to 47. The call of line 34 stands outside the
  \<^verbatim>\<open>try\<close> of line 36, so what it raises leaves the method as it is.
\<close>

definition build_request :: "Idr \<Rightarrow> string \<Rightarrow> string \<Rightarrow> params option \<Rightarrow> request" where
  "build_request self method u kw =
     \<lparr>req_method = method, req_url = u, req_timeout = 60,
      req_headers = [(''CVE-API-KEY'', api_key self), (''CVE-API-ORG'', org self),
                     (''CVE-API-USER'', username self)],
      req_params = kw\<rparr>"

definition http_request ::
  "pylib \<Rightarrow> Idr \<Rightarrow> transport \<Rightarrow> string \<Rightarrow> string \<Rightarrow> params option \<Rightarrow> error + response" where
  "http_request py self t method path kw =
     (case urljoin py (url self) path of
        Inl e \<Rightarrow> Inl e
      | Inr u \<Rightarrow>
          (case t (build_request self method u kw) of
             Raises e \<Rightarrow> Inl (RequestsError e)
           | Responds r \<Rightarrow>
               (if raise_exc self
                then (case raise_for_status r of
                        None \<Rightarrow> Inr r
                      | Some (HTTPError msg (Some er)) \<Rightarrow>
                          (let error = (case body_json er of
                                          Some j \<Rightarrow> str_of_json py j
                                        | None \<Rightarrow> str_of_bytes py (content er))
                           in Inl (IdrException (msg @ ''; returned error: '' @ error)))
                      | Some (HTTPError msg None) \<Rightarrow> Inl (IdrException msg))
                else Inr r)))"

definition get :: "pylib \<Rightarrow> Idr \<Rightarrow> transport \<Rightarrow> string \<Rightarrow> params option \<Rightarrow> error + response" where
  "get py self t path kw = http_request py self t ''get'' path kw"

definition post :: "pylib \<Rightarrow> Idr \<Rightarrow> transport \<Rightarrow> string \<Rightarrow> params option \<Rightarrow> error + response" where
  "post py self t path kw = http_request py self t ''post'' path kw"

section \<open>Endpoint operations\<close>

definition reserve ::
  "pylib \<Rightarrow> Idr \<Rightarrow> transport \<Rightarrow> int \<Rightarrow> bool \<Rightarrow> json \<Rightarrow> json \<Rightarrow> error + response" where
  "reserve py self t count random year owning_cna =
     post py self t ''cve-id'' (Some (reserve_params count random year owning_cna))"

definition show_cve :: "pylib \<Rightarrow> Idr \<Rightarrow> transport \<Rightarrow> string \<Rightarrow> error + response" where
  "show_cve py self t cve_id = get py self t (''cve-id/'' @ cve_id) None"

definition quota :: "pylib \<Rightarrow> Idr \<Rightarrow> transport \<Rightarrow> error + response" where
  "quota py self t = get py self t (''org/'' @ org self @ ''/id_quota'') None"

definition ping :: "pylib \<Rightarrow> Idr \<Rightarrow> transport \<Rightarrow> error + response" where
  "ping py self t = get py self t ''health-check'' None"

section \<open>Pagination\<close>

text \<open>
  \<^verbatim>\<open>page[page_data_attr]\<close>: a \<^verbatim>\<open>KeyError\<close> when the decoded object has no such key, a
  \<^verbatim>\<open>TypeError\<close> when the decoded body is not an object.
\<close>

definition subscript :: "json \<Rightarrow> string \<Rightarrow> error + json" where
  "subscript page k =
     (case page of
        JObj kvs \<Rightarrow> (case map_of kvs k of None \<Rightarrow> Inl (KeyError k) | Some v \<Rightarrow> Inr v)
      | _ \<Rightarrow> Inl TypeError)"

text \<open>
  What \<^verbatim>\<open>yield from v\<close> iterates: the elements of an array, the keys of an object, the
  characters of a string; anything else is not iterable.
\<close>

definition iter_items :: "json \<Rightarrow> error + json list" where
  "iter_items v =
     (case v of
        JArr xs \<Rightarrow> Inr xs
      | JObj kvs \<Rightarrow> Inr (map (\<lambda>kv. JStr (fst kv)) kvs)
      | JStr s \<Rightarrow> Inr (map (\<lambda>c. JStr [c]) s)
      | _ \<Rightarrow> Inl TypeError)"

text \<open>\<^verbatim>\<open>page.get("nextPage")\<close>; \<open>JNull\<close> is Python's \<^verbatim>\<open>None\<close>.\<close>

definition dict_get :: "json \<Rightarrow> string \<Rightarrow> json" where
  "dict_get page k =
     (case page of
        JObj kvs \<Rightarrow> (case map_of kvs k of None \<Rightarrow> JNull | Some v \<Rightarrow> v)
      | _ \<Rightarrow> JNull)"

text \<open>
  Lines 65 to 68 up to the first \<^verbatim>\<open>yield\<close>: the GET, the decoding of the body and the
  lookup of the data field. The result is the page and the items to yield.
\<close>

definition fetch_page ::
  "pylib \<Rightarrow> Idr \<Rightarrow> transport \<Rightarrow> string \<Rightarrow> string \<Rightarrow> params \<Rightarrow> error + (json \<times> json list)" where
  "fetch_page py self t path page_data_attr ps =
     (case get py self t path (Some ps) of
        Inl e \<Rightarrow> Inl e
      | Inr r \<Rightarrow>
          (case body_json r of
             None \<Rightarrow> Inl JSONDecodeError
           | Some page \<Rightarrow>
               (case subscript page page_data_attr of
                  Inl e \<Rightarrow> Inl e
                | Inr v \<Rightarrow>
                    (case iter_items v of
                       Inl e \<Rightarrow> Inl e
                     | Inr items \<Rightarrow> Inr (page, items)))))"

text \<open>
  \<^verbatim>\<open>get_paged\<close> is a generator: calling it runs nothing, and each \<^verbatim>\<open>next()\<close> of the
  caller runs its body up to the next \<^verbatim>\<open>yield\<close>. Its state between two calls is the
  parameter dictionary (which line 73 updates), the place where it is suspended, and,
  for this development, the number of GET calls made so far. The \<open>k\<close>-th GET of a run
  is answered by \<open>net k\<close>.
\<close>

datatype phase =
    AtFetch
  | Suspended json "json list"
  | Finished

record gen_state =
  g_params :: params
  g_phase :: phase
  g_fetches :: nat

datatype gen_result = Yield json | StopIteration | Raise error

definition get_paged :: "params \<Rightarrow> gen_state" where
  "get_paged ps = \<lparr>g_params = ps, g_phase = AtFetch, g_fetches = 0\<rparr>"

text \<open>
  One \<^verbatim>\<open>next()\<close> on the generator. \<open>Suspended page items\<close> is the suspension inside
  \<^verbatim>\<open>yield from\<close> with \<open>items\<close> still to come; \<open>AtFetch\<close> is the head of the
  \<^verbatim>\<open>while\<close> loop. The value \<open>None\<close> is a call that never returns (a server that
  sends empty pages with a cursor for ever).
\<close>

partial_function (option) gen_next ::
  "pylib \<Rightarrow> Idr \<Rightarrow> (nat \<Rightarrow> transport) \<Rightarrow> string \<Rightarrow> string \<Rightarrow> gen_state
     \<Rightarrow> (gen_result \<times> gen_state) option" where
  "gen_next py self net path page_data_attr st =
     (case g_phase st of
        Finished \<Rightarrow> Some (StopIteration, st)
      | Suspended page (x # rest) \<Rightarrow> Some (Yield x, st\<lparr>g_phase := Suspended page rest\<rparr>)
      | Suspended page [] \<Rightarrow>
          (let next_page = dict_get page ''nextPage''
           in if next_page \<noteq> JNull
              then gen_next py self net path page_data_attr
                     (st\<lparr>g_params := (g_params st)(''page'' \<mapsto> next_page), g_phase := AtFetch\<rparr>)
              else Some (StopIteration, st\<lparr>g_phase := Finished\<rparr>))
      | AtFetch \<Rightarrow>
          (case fetch_page py self (net (g_fetches st)) path page_data_attr (g_params st) of
             Inl e \<Rightarrow> Some (Raise e, st\<lparr>g_phase := Finished, g_fetches := Suc (g_fetches st)\<rparr>)
           | Inr (page, items) \<Rightarrow>
               gen_next py self net path page_data_attr
                 (st\<lparr>g_phase := Suspended page items, g_fetches := Suc (g_fetches st)\<rparr>)))"

text \<open>
  A consumer that iterates to the end (\<^verbatim>\<open>list(...)\<close>, a \<^verbatim>\<open>for\<close> loop): the items
  received, the exception that ended the iteration if one did, and the final state.
\<close>

partial_function (option) drain ::
  "pylib \<Rightarrow> Idr \<Rightarrow> (nat \<Rightarrow> transport) \<Rightarrow> string \<Rightarrow> string \<Rightarrow> gen_state \<Rightarrow> json list
     \<Rightarrow> (json list \<times> error option \<times> gen_state) option" where
  "drain py self net path page_data_attr st acc =
     (case gen_next py self net path page_data_attr st of
        None \<Rightarrow> None
      | Some (Yield x, st') \<Rightarrow> drain py self net path page_data_attr st' (acc @ [x])
      | Some (StopIteration, st') \<Rightarrow> Some (acc, None, st')
      | Some (Raise e, st') \<Rightarrow> Some (acc, Some e, st'))"

text \<open>A consumer that asks for at most \<open>n\<close> items and then stops iterating.\<close>

fun consume ::
  "pylib \<Rightarrow> Idr \<Rightarrow> (nat \<Rightarrow> transport) \<Rightarrow> string \<Rightarrow> string \<Rightarrow> nat \<Rightarrow> gen_state
     \<Rightarrow> (json list \<times> gen_state) option" where
  "consume py self net path page_data_attr 0 st = Some ([], st)"
| "consume py self net path page_data_attr (Suc n) st =
     (case gen_next py self net path page_data_attr st of
        None \<Rightarrow> None
      | Some (Yield x, st') \<Rightarrow>
          (case consume py self net path page_data_attr n st' of
             None \<Rightarrow> None
           | Some (xs, st'') \<Rightarrow> Some (x # xs, st''))
      | Some (StopIteration, st') \<Rightarrow> Some ([], st')
      | Some (Raise e, st') \<Rightarrow> Some ([], st'))"

declare consume.simps [simp del]


section \<open>Notions used to state the properties\<close>

text \<open>The message of the \<^verbatim>\<open>HTTPError\<close> of an error status, and the error statuses.\<close>

definition error_status :: "nat \<Rightarrow> bool" where
  "error_status s = (400 \<le> s \<and> s < 600)"

definition http_error_msg :: "response \<Rightarrow> string" where
  "http_error_msg r =
     show_nat (status_code r)
     @ (if status_code r < 500 then '' Client Error: '' else '' Server Error: '')
     @ reason r @ '' for url: '' @ resp_url r"

text \<open>
  What \<^verbatim>\<open>http_request\<close> makes of the outcome of its transport call (lines 34 to 47),
  and what lines 66 to 68 make of the response of a GET.
\<close>

definition respond :: "pylib \<Rightarrow> Idr \<Rightarrow> net_outcome \<Rightarrow> error + response" where
  "respond py self outcome =
     (case outcome of
        Raises e \<Rightarrow> Inl (RequestsError e)
      | Responds r \<Rightarrow>
          if raise_exc self \<and> error_status (status_code r)
          then Inl (IdrException (http_error_msg r @ ''; returned error: ''
                 @ (case body_json r of
                      Some j \<Rightarrow> str_of_json py j
                    | None \<Rightarrow> str_of_bytes py (content r))))
          else Inr r)"


text \<open>The items that a fetched page contributes: what iterating its data field yields.\<close>

definition page_items :: "string \<Rightarrow> json \<Rightarrow> json list" where
  "page_items page_data_attr page =
     (case subscript page page_data_attr of
        Inl e \<Rightarrow> []
      | Inr v \<Rightarrow> (case iter_items v of Inl e \<Rightarrow> [] | Inr xs \<Rightarrow> xs))"

text \<open>The cursor that line 73 stores after a page, and the parameters after a list of pages.\<close>

definition advance :: "params \<Rightarrow> json \<Rightarrow> params" where
  "advance ps page = ps(''page'' \<mapsto> dict_get page ''nextPage'')"

definition params_after :: "params \<Rightarrow> json list \<Rightarrow> params" where
  "params_after ps pages = foldl advance ps pages"

text \<open>
  \<open>served \<dots> i ps pages\<close>: from the \<open>i\<close>-th GET on and with the parameters \<open>ps\<close>, the
  transport answers with the pages of the list, in order; every page but the last one
  carries a cursor (its \<^verbatim>\<open>nextPage\<close> is present and not null), and each GET is sent with
  the cursor of the page before. Nothing is said about the cursor of the last page.
\<close>

fun served ::
  "pylib \<Rightarrow> Idr \<Rightarrow> (nat \<Rightarrow> transport) \<Rightarrow> string \<Rightarrow> string \<Rightarrow> nat \<Rightarrow> params \<Rightarrow> json list \<Rightarrow> bool" where
  "served py self net path page_data_attr i ps [] = True"
| "served py self net path page_data_attr i ps (page # rest) =
     (fetch_page py self (net i) path page_data_attr ps
        = Inr (page, page_items page_data_attr page)
      \<and> (rest = []
         \<or> (dict_get page ''nextPage'' \<noteq> JNull
            \<and> served py self net path page_data_attr (Suc i) (advance ps page) rest)))"

text \<open>The number of items in a list of pages.\<close>

definition item_count :: "string \<Rightarrow> json list \<Rightarrow> nat" where
  "item_count page_data_attr pages = length (concat (map (page_items page_data_attr) pages))"

text \<open>
  Notions for the host of a joined URL. \<open>has_scheme\<close> is the test under which
  \<^verbatim>\<open>urlsplit\<close> splits a scheme off; a \<open>relative_ref\<close> is a path that, once
  \<^verbatim>\<open>urlsplit\<close> has stripped and cleaned it, has no scheme and does not start with two
  slashes; \<open>netloc_of\<close> and \<open>scheme_of\<close> read a URL back with \<^verbatim>\<open>urlsplit\<close>.
\<close>

definition has_scheme :: "string \<Rightarrow> bool" where
  "has_scheme u =
     (CHR '':'' \<in> set u
      \<and> (let pre = takeWhile (\<lambda>x. x \<noteq> CHR '':'') u
         in pre \<noteq> [] \<and> ascii_alpha (hd pre) \<and> list_all scheme_char pre))"

definition relative_ref :: "string \<Rightarrow> bool" where
  "relative_ref p =
     (let q = remove_unsafe (lstrip_c0 p) in \<not> has_scheme q \<and> take 2 q \<noteq> ''//'')"

definition netloc_of :: "pylib \<Rightarrow> string \<Rightarrow> string option" where
  "netloc_of py u = (case urlsplit py u [] of Inl e \<Rightarrow> None | Inr r \<Rightarrow> Some (sr_netloc r))"

definition scheme_of :: "pylib \<Rightarrow> string \<Rightarrow> string option" where
  "scheme_of py u = (case urlsplit py u [] of Inl e \<Rightarrow> None | Inr r \<Rightarrow> Some (sr_scheme r))"

text \<open>A scheme as \<^verbatim>\<open>urlsplit\<close> returns it: a letter first, scheme characters, lower case.\<close>

definition good_scheme :: "string \<Rightarrow> bool" where
  "good_scheme s = (s \<noteq> [] \<and> ascii_alpha (hd s) \<and> list_all scheme_char s \<and> lower s = s)"

section \<open>A concrete client and server, for the examples\<close>

text \<open>
  An instance of the library parameters. Its \<open>str_upper\<close> is \<^verbatim>\<open>str.upper()\<close> on ASCII
  text: the letters \<^verbatim>\<open>a\<close> to \<^verbatim>\<open>z\<close> become \<^verbatim>\<open>A\<close> to \<^verbatim>\<open>Z\<close>.
\<close>

definition ascii_upper_char :: "char \<Rightarrow> char" where
  "ascii_upper_char c =
     (let n = (of_char c :: nat) in if 97 \<le> n \<and> n \<le> 122 then char_of (n - 32) else c)"

definition ascii_upper :: "string \<Rightarrow> string" where
  "ascii_upper s = map ascii_upper_char s"

definition example_py :: pylib where
  "example_py = \<lparr>check_bracketed_host = (\<lambda>h. None), nfkc_ok = (\<lambda>n. True),
                  str_of_json = (\<lambda>j. ''{...}''), str_of_bytes = (\<lambda>b. b),
                  str_upper = ascii_upper\<rparr>"

definition example_client :: "bool \<Rightarrow> Idr" where
  "example_client raise =
     \<lparr>username = ''user'', org = ''acme'', api_key = ''key'',
      url = ''https://cveawg.mitre.org/api/'', raise_exc = raise\<rparr>"

definition example_response :: "nat \<Rightarrow> string \<Rightarrow> string \<Rightarrow> json option \<Rightarrow> request \<Rightarrow> response" where
  "example_response status why body decoded req =
     \<lparr>status_code = status, reason = why, resp_url = req_url req, content = body,
      body_json = decoded\<rparr>"

definition page_of :: "json list \<Rightarrow> json \<Rightarrow> json" where
  "page_of ids cursor = JObj [(''cve_ids'', JArr ids), (''nextPage'', cursor)]"

text \<open>
  A server with three pages, chosen by the \<^verbatim>\<open>page\<close> parameter of the request: no
  parameter gives the first page with cursor 2, cursor 2 the second page with cursor 3,
  cursor 3 the last page with a null cursor.
\<close>

definition three_pages :: "nat \<Rightarrow> transport" where
  "three_pages k req =
     (case req_params req of
        None \<Rightarrow> Raises ConnectionError
      | Some ps \<Rightarrow>
          (case ps ''page'' of
             None \<Rightarrow> Responds (example_response 200 ''OK'' []
                       (Some (page_of [JStr ''CVE-1'', JStr ''CVE-2''] (JNum 2))) req)
           | Some c \<Rightarrow>
               if c = JNum 2
               then Responds (example_response 200 ''OK'' []
                       (Some (page_of [JStr ''CVE-3''] (JNum 3))) req)
               else if c = JNum 3
               then Responds (example_response 200 ''OK'' []
                       (Some (page_of [JStr ''CVE-4'', JStr ''CVE-5''] JNull)) req)
               else Responds (example_response 404 ''Not Found'' ''no such page'' None req)))"

text \<open>A server whose second page has no data field.\<close>

definition broken_second_page :: "nat \<Rightarrow> transport" where
  "broken_second_page k req =
     (if k = 0
      then Responds (example_response 200 ''OK'' []
             (Some (page_of [JStr ''CVE-1'', JStr ''CVE-2''] (JNum 2))) req)
      else Responds (example_response 200 ''OK'' []
             (Some (JObj [(''nextPage'', JNull)])) req))"

text \<open>
  Servers whose answer has no array under the data field: the body is an array, and the
  body is an object whose data field is a number.
\<close>

definition array_body :: "nat \<Rightarrow> transport" where
  "array_body k req = Responds (example_response 200 ''OK'' ''[]'' (Some (JArr [])) req)"

definition number_field :: "nat \<Rightarrow> transport" where
  "number_field k req =
     Responds (example_response 200 ''OK'' [] (Some (JObj [(''cve_ids'', JNum 5)])) req)"

text \<open>
  Servers that show what they were sent: the answer to a request is its parameter of
  the given name, as the decoded body, and a single page whose items are its parameters
  of the given names (null for a name that is not sent).
\<close>

definition echo_param :: "string \<Rightarrow> transport" where
  "echo_param k req =
     Responds (example_response 200 ''OK'' []
       (case req_params req of None \<Rightarrow> None | Some ps \<Rightarrow> ps k) req)"


text \<open>Servers with a single page: without a cursor field, and with a null cursor.\<close>

definition single_page_absent :: "nat \<Rightarrow> transport" where
  "single_page_absent k req =
     Responds (example_response 200 ''OK'' []
       (Some (JObj [(''cve_ids'', JArr [JStr ''CVE-1'']), (''totalCount'', JNum 1)])) req)"

definition single_page_null :: "nat \<Rightarrow> transport" where
  "single_page_null k req =
     Responds (example_response 200 ''OK'' [] (Some (page_of [JStr ''CVE-1''] JNull)) req)"

section \<open>Construction\<close>

lemma ENVS_dom: "ENVS env \<noteq> None \<longleftrightarrow> env = ''prod'' \<or> env = ''dev''"
  by (simp add: ENVS_def)

lemma ENVS_nonempty: "ENVS env = Some s \<Longrightarrow> s \<noteq> []"
  by (auto simp: ENVS_def split: if_splits)

text \<open>
  Claim C5. Construction raises the configuration error \<^verbatim>\<open>ValueError\<close> exactly when
  no explicit base URL is given and the environment name is not a key of \<^verbatim>\<open>ENVS\<close>.
  In every other configuration it returns a client, whose URL is the explicit one when
  one is given and the table's entry for the environment otherwise. The constructor is a
  function of its arguments alone, so the failure happens at construction and before any
  request.
\<close>

theorem Idr_init_eager:
  "Idr_init usr organisation key env u raise =
     (if \<not> url_given u \<and> ENVS env = None
      then Inl (ValueError ''Missing URL for IDR'')
      else Inr \<lparr>username = usr, org = organisation, api_key = key,
                url = (if url_given u then the u else the (ENVS env)),
                raise_exc = raise\<rparr>)"
proof (cases "url_given u")
  case True
  then obtain s where "u = Some s" "s \<noteq> []"
    by (auto simp: url_given_def split: option.splits)
  then show ?thesis
    by (simp add: Idr_init_def resolve_url_def url_given_def)
next
  case False
  then have r: "resolve_url u env = ENVS env"
    by (auto simp: url_given_def resolve_url_def split: option.splits)
  show ?thesis
  proof (cases "ENVS env")
    case None
    with False r show ?thesis by (simp add: Idr_init_def)
  next
    case (Some s)
    with False r ENVS_nonempty [OF Some] show ?thesis by (simp add: Idr_init_def)
  qed
qed

theorem Idr_init_eager_witness:
  "Idr_init ''u'' ''o'' ''k'' ''staging'' None True = Inl (ValueError ''Missing URL for IDR'')
   \<and> Idr_init ''u'' ''o'' ''k'' ''staging'' (Some ''https://h.example/api/'') True
       = Inr \<lparr>username = ''u'', org = ''o'', api_key = ''k'',
               url = ''https://h.example/api/'', raise_exc = True\<rparr>
   \<and> Idr_init ''u'' ''o'' ''k'' ''dev'' None False
       = Inr \<lparr>username = ''u'', org = ''o'', api_key = ''k'',
               url = ''https://cveawg-dev.mitre.org/api/'', raise_exc = False\<rparr>"
  using Idr_init_eager [of "''u''" "''o''" "''k''" "''staging''" None True]
    Idr_init_eager [of "''u''" "''o''" "''k''" "''staging''" "Some ''https://h.example/api/''" True]
    Idr_init_eager [of "''u''" "''o''" "''k''" "''dev''" None False]
  by (simp add: url_given_def ENVS_def)

section \<open>Error policy of the transport\<close>

lemma raise_for_status_eq:
  "raise_for_status r =
     (if error_status (status_code r) then Some (HTTPError (http_error_msg r) (Some r)) else None)"
  by (simp add: raise_for_status_def http_error_msg_def error_status_def)

lemma http_request_responds:
  assumes "urljoin py (url self) path = Inr u"
    and "t (build_request self verb u kw) = Responds r"
  shows "http_request py self t verb path kw =
     (if raise_exc self \<and> error_status (status_code r)
      then Inl (IdrException (http_error_msg r @ ''; returned error: ''
             @ (case body_json r of Some j \<Rightarrow> str_of_json py j
                | None \<Rightarrow> str_of_bytes py (content r))))
      else Inr r)"
  using assms by (simp add: http_request_def raise_for_status_eq)

lemma http_request_raises:
  assumes "urljoin py (url self) path = Inr u"
    and "t (build_request self verb u kw) = Raises e"
  shows "http_request py self t verb path kw = Inl (RequestsError e)"
  using assms by (simp add: http_request_def)

section \<open>The generator, step by step\<close>

lemma page_items_array:
  "subscript page a = Inr (JArr xs) \<Longrightarrow> page_items a page = xs"
  by (simp add: page_items_def iter_items_def)

lemma fetch_page_items:
  "fetch_page py self t path a ps = Inr (pg, items) \<Longrightarrow> items = page_items a pg"
  by (auto simp: fetch_page_def page_items_def split: sum.splits option.splits)

lemma gen_next_yield:
  "gen_next py self net path a \<lparr>g_params = ps, g_phase = Suspended pg (x # rest), g_fetches = k\<rparr>
     = Some (Yield x, \<lparr>g_params = ps, g_phase = Suspended pg rest, g_fetches = k\<rparr>)"
  by (subst gen_next.simps) simp

lemma gen_next_stop:
  "dict_get pg ''nextPage'' = JNull \<Longrightarrow>
   gen_next py self net path a \<lparr>g_params = ps, g_phase = Suspended pg [], g_fetches = k\<rparr>
     = Some (StopIteration, \<lparr>g_params = ps, g_phase = Finished, g_fetches = k\<rparr>)"
  by (subst gen_next.simps) simp

lemma gen_next_advance:
  "dict_get pg ''nextPage'' \<noteq> JNull \<Longrightarrow>
   gen_next py self net path a \<lparr>g_params = ps, g_phase = Suspended pg [], g_fetches = k\<rparr>
     = gen_next py self net path a \<lparr>g_params = advance ps pg, g_phase = AtFetch, g_fetches = k\<rparr>"
  by (subst gen_next.simps) (simp add: advance_def)

lemma gen_next_fetch_ok:
  "fetch_page py self (net k) path a ps = Inr (pg, items) \<Longrightarrow>
   gen_next py self net path a \<lparr>g_params = ps, g_phase = AtFetch, g_fetches = k\<rparr>
     = gen_next py self net path a \<lparr>g_params = ps, g_phase = Suspended pg items, g_fetches = Suc k\<rparr>"
  by (subst gen_next.simps) simp

lemma gen_next_fetch_err:
  "fetch_page py self (net k) path a ps = Inl e \<Longrightarrow>
   gen_next py self net path a \<lparr>g_params = ps, g_phase = AtFetch, g_fetches = k\<rparr>
     = Some (Raise e, \<lparr>g_params = ps, g_phase = Finished, g_fetches = Suc k\<rparr>)"
  by (subst gen_next.simps) simp

lemma gen_next_finished:
  "gen_next py self net path a \<lparr>g_params = ps, g_phase = Finished, g_fetches = k\<rparr>
     = Some (StopIteration, \<lparr>g_params = ps, g_phase = Finished, g_fetches = k\<rparr>)"
  by (subst gen_next.simps) simp

subsection \<open>Iterating to the end\<close>

lemma drain_cong:
  "gen_next py self net path a st1 = gen_next py self net path a st2 \<Longrightarrow>
   drain py self net path a st1 acc = drain py self net path a st2 acc"
  by (simp add: drain.simps [of py self net path a st1] drain.simps [of py self net path a st2])

lemma drain_items:
  "drain py self net path a \<lparr>g_params = ps, g_phase = Suspended pg items, g_fetches = k\<rparr> acc
     = drain py self net path a \<lparr>g_params = ps, g_phase = Suspended pg [], g_fetches = k\<rparr>
         (acc @ items)"
proof (induction items arbitrary: acc)
  case Nil
  show ?case by simp
next
  case (Cons x xs)
  have "drain py self net path a
          \<lparr>g_params = ps, g_phase = Suspended pg (x # xs), g_fetches = k\<rparr> acc
        = drain py self net path a
          \<lparr>g_params = ps, g_phase = Suspended pg xs, g_fetches = k\<rparr> (acc @ [x])"
    by (subst drain.simps) (simp add: gen_next_yield)
  with Cons.IH [of "acc @ [x]"] show ?case by simp
qed

lemma drain_served:
  "served py self net path a i ps pages \<Longrightarrow> pages \<noteq> [] \<Longrightarrow>
   drain py self net path a \<lparr>g_params = ps, g_phase = AtFetch, g_fetches = i\<rparr> acc
     = drain py self net path a
         \<lparr>g_params = params_after ps (butlast pages), g_phase = Suspended (last pages) [],
          g_fetches = i + length pages\<rparr>
         (acc @ concat (map (page_items a) pages))"
proof (induction pages arbitrary: i ps acc)
  case Nil
  then show ?case by simp
next
  case (Cons pg rest)
  from Cons.prems have f: "fetch_page py self (net i) path a ps = Inr (pg, page_items a pg)"
    by simp
  have step1: "drain py self net path a \<lparr>g_params = ps, g_phase = AtFetch, g_fetches = i\<rparr> acc
      = drain py self net path a
          \<lparr>g_params = ps, g_phase = Suspended pg [], g_fetches = Suc i\<rparr> (acc @ page_items a pg)"
    using drain_cong [OF gen_next_fetch_ok [where net = net and k = i, OF f]] drain_items by simp
  show ?case
  proof (cases "rest = []")
    case True
    with step1 show ?thesis by (simp add: params_after_def)
  next
    case False
    with Cons.prems have n: "dict_get pg ''nextPage'' \<noteq> JNull"
      and s: "served py self net path a (Suc i) (advance ps pg) rest"
      by auto
    have step2: "drain py self net path a
          \<lparr>g_params = ps, g_phase = Suspended pg [], g_fetches = Suc i\<rparr> (acc @ page_items a pg)
      = drain py self net path a
          \<lparr>g_params = advance ps pg, g_phase = AtFetch, g_fetches = Suc i\<rparr> (acc @ page_items a pg)"
      by (rule drain_cong [OF gen_next_advance [OF n]])
    from False have pa: "params_after ps (butlast (pg # rest)) = params_after (advance ps pg) (butlast rest)"
      by (simp add: params_after_def)
    show ?thesis
      using step1 step2 Cons.IH [OF s False, of "acc @ page_items a pg"] False pa
      by simp
  qed
qed

lemma drain_stop:
  "dict_get pg ''nextPage'' = JNull \<Longrightarrow>
   drain py self net path a \<lparr>g_params = ps, g_phase = Suspended pg [], g_fetches = k\<rparr> acc
     = Some (acc, None, \<lparr>g_params = ps, g_phase = Finished, g_fetches = k\<rparr>)"
  by (subst drain.simps) (simp add: gen_next_stop)

lemma drain_fetch_err:
  "fetch_page py self (net k) path a ps = Inl e \<Longrightarrow>
   drain py self net path a \<lparr>g_params = ps, g_phase = AtFetch, g_fetches = k\<rparr> acc
     = Some (acc, Some e, \<lparr>g_params = ps, g_phase = Finished, g_fetches = Suc k\<rparr>)"
  by (subst drain.simps) (simp add: gen_next_fetch_err)

subsection \<open>Taking a number of items\<close>

lemma consume_cong:
  "gen_next py self net path a st1 = gen_next py self net path a st2 \<Longrightarrow>
   consume py self net path a (Suc n) st1 = consume py self net path a (Suc n) st2"
  by (simp add: consume.simps)

lemma consume_within:
  "n \<le> length items \<Longrightarrow>
   consume py self net path a n \<lparr>g_params = ps, g_phase = Suspended pg items, g_fetches = k\<rparr>
     = Some (take n items,
             \<lparr>g_params = ps, g_phase = Suspended pg (drop n items), g_fetches = k\<rparr>)"
proof (induction n arbitrary: items)
  case 0
  show ?case by (simp add: consume.simps)
next
  case (Suc n)
  then obtain x xs where items: "items = x # xs" by (cases items) auto
  with Suc.prems have "n \<le> length xs" by simp
  from Suc.IH [OF this] show ?case by (simp add: items gen_next_yield consume.simps)
qed

lemma consume_beyond:
  "consume py self net path a (length items + Suc m)
      \<lparr>g_params = ps, g_phase = Suspended pg items, g_fetches = k\<rparr>
     = (case consume py self net path a (Suc m)
               \<lparr>g_params = ps, g_phase = Suspended pg [], g_fetches = k\<rparr> of
          None \<Rightarrow> None
        | Some (xs, st) \<Rightarrow> Some (items @ xs, st))"
proof (induction items)
  case Nil
  show ?case by (simp split: option.splits)
next
  case (Cons x xs)
  have "consume py self net path a (Suc (length xs + Suc m))
          \<lparr>g_params = ps, g_phase = Suspended pg (x # xs), g_fetches = k\<rparr>
        = (case consume py self net path a (length xs + Suc m)
                  \<lparr>g_params = ps, g_phase = Suspended pg xs, g_fetches = k\<rparr> of
             None \<Rightarrow> None
           | Some (ys, st) \<Rightarrow> Some (x # ys, st))"
    by (simp add: consume.simps gen_next_yield)
  with Cons.IH show ?case by (simp split: option.splits)
qed

lemma item_count_Cons:
  "item_count a (pg # rest) = length (page_items a pg) + item_count a rest"
  by (simp add: item_count_def)

lemma consume_served:
  "served py self net path a i ps pages \<Longrightarrow> n \<le> item_count a (take k pages) \<Longrightarrow>
   \<exists>st. consume py self net path a n \<lparr>g_params = ps, g_phase = AtFetch, g_fetches = i\<rparr>
           = Some (take n (concat (map (page_items a) pages)), st)
         \<and> g_fetches st \<le> i + k"
proof (induction pages arbitrary: i ps n k)
  case Nil
  then show ?case by (simp add: item_count_def consume.simps)
next
  case (Cons pg rest)
  show ?case
  proof (cases n)
    case 0
    then show ?thesis by (simp add: consume.simps)
  next
    case (Suc m)
    with Cons.prems(2) obtain k' where k: "k = Suc k'"
      by (cases k) (auto simp: item_count_def)
    from Cons.prems(1)
    have f: "fetch_page py self (net i) path a ps = Inr (pg, page_items a pg)" by simp
    have start: "consume py self net path a n
                   \<lparr>g_params = ps, g_phase = AtFetch, g_fetches = i\<rparr>
               = consume py self net path a n
                   \<lparr>g_params = ps, g_phase = Suspended pg (page_items a pg), g_fetches = Suc i\<rparr>"
      unfolding Suc
      by (rule consume_cong [OF gen_next_fetch_ok [where net = net and k = i, OF f]])
    show ?thesis
    proof (cases "n \<le> length (page_items a pg)")
      case True
      from consume_within [OF True] start k True show ?thesis by simp
    next
      case False
      then obtain m' where n: "n = length (page_items a pg) + Suc m'"
        by (metis add_Suc_right less_imp_Suc_add not_le)
      from Cons.prems(2) k n have le: "Suc m' \<le> item_count a (take k' rest)"
        by (simp add: item_count_Cons)
      then have "rest \<noteq> []" by (auto simp: item_count_def)
      with Cons.prems(1) have c: "dict_get pg ''nextPage'' \<noteq> JNull"
        and s: "served py self net path a (Suc i) (advance ps pg) rest"
        by auto
      from Cons.IH [OF s le] obtain st where
        st: "consume py self net path a (Suc m')
               \<lparr>g_params = advance ps pg, g_phase = AtFetch, g_fetches = Suc i\<rparr>
             = Some (take (Suc m') (concat (map (page_items a) rest)), st)"
        and b: "g_fetches st \<le> Suc i + k'"
        by blast
      have susp: "consume py self net path a (Suc m')
               \<lparr>g_params = ps, g_phase = Suspended pg [], g_fetches = Suc i\<rparr>
             = Some (take (Suc m') (concat (map (page_items a) rest)), st)"
        using consume_cong [OF gen_next_advance [OF c]] st by simp
      have "consume py self net path a n
               \<lparr>g_params = ps, g_phase = Suspended pg (page_items a pg), g_fetches = Suc i\<rparr>
             = Some (page_items a pg @ take (Suc m') (concat (map (page_items a) rest)), st)"
        unfolding n by (subst consume_beyond) (simp add: susp)
      with start have "consume py self net path a n
                   \<lparr>g_params = ps, g_phase = AtFetch, g_fetches = i\<rparr>
             = Some (page_items a pg @ take (Suc m') (concat (map (page_items a) rest)), st)"
        by simp
      with b k n show ?thesis by simp
    qed
  qed
qed

subsection \<open>The example servers\<close>

lemma example_urljoin:
  "urljoin example_py ''https://cveawg.mitre.org/api/'' ''cve-id''
     = Inr ''https://cveawg.mitre.org/api/cve-id''"
  by code_simp

lemma example_url: "url (example_client raise) = ''https://cveawg.mitre.org/api/''"
  by (simp add: example_client_def)

lemma page_items_page_of: "page_items ''cve_ids'' (page_of ids c) = ids"
  by (simp add: page_items_def page_of_def subscript_def iter_items_def)

lemma next_page_of: "dict_get (page_of ids c) ''nextPage'' = c"
  by (simp add: page_of_def dict_get_def)

lemma three_pages_served:
  "served example_py (example_client True) three_pages ''cve-id'' ''cve_ids'' 0 Map.empty
     [page_of [JStr ''CVE-1'', JStr ''CVE-2''] (JNum 2),
      page_of [JStr ''CVE-3''] (JNum 3),
      page_of [JStr ''CVE-4'', JStr ''CVE-5''] JNull]"
  by (simp add: fetch_page_def get_def http_request_def example_url example_urljoin
      three_pages_def build_request_def example_response_def raise_for_status_def
      page_items_page_of next_page_of advance_def)
     (simp add: page_of_def subscript_def iter_items_def)

subsection \<open>A run that ends in an exception\<close>

lemma params_after_snoc:
  "pages \<noteq> [] \<Longrightarrow> advance (params_after ps (butlast pages)) (last pages) = params_after ps pages"
proof -
  assume "pages \<noteq> []"
  then have "pages = butlast pages @ [last pages]" by simp
  then have "params_after ps pages = foldl advance ps (butlast pages @ [last pages])"
    by (simp add: params_after_def)
  then show ?thesis by (simp add: params_after_def)
qed

lemma fetch_page_key_error:
  "get py self t path (Some ps) = Inr r \<Longrightarrow> body_json r = Some (JObj kvs) \<Longrightarrow>
   map_of kvs a = None \<Longrightarrow> fetch_page py self t path a ps = Inl (KeyError a)"
  by (simp add: fetch_page_def subscript_def)

lemma drain_served_then_error:
  assumes "served py self net path a 0 ps pages"
    and "pages = [] \<or> dict_get (last pages) ''nextPage'' \<noteq> JNull"
    and "fetch_page py self (net (length pages)) path a (params_after ps pages) = Inl e"
  shows "drain py self net path a (get_paged ps) []
     = Some (concat (map (page_items a) pages), Some e,
             \<lparr>g_params = params_after ps pages, g_phase = Finished,
              g_fetches = Suc (length pages)\<rparr>)"
proof (cases "pages = []")
  case True
  with assms(3) have "fetch_page py self (net 0) path a ps = Inl e"
    by (simp add: params_after_def)
  from drain_fetch_err [where net = net and k = 0, OF this] True show ?thesis
    by (simp add: get_paged_def params_after_def)
next
  case False
  with assms(2) have c: "dict_get (last pages) ''nextPage'' \<noteq> JNull" by simp
  have "drain py self net path a (get_paged ps) []
      = drain py self net path a
          \<lparr>g_params = params_after ps (butlast pages), g_phase = Suspended (last pages) [],
           g_fetches = length pages\<rparr> (concat (map (page_items a) pages))"
    using drain_served [OF assms(1) False, of "[]"] by (simp add: get_paged_def)
  also have "\<dots> = drain py self net path a
          \<lparr>g_params = params_after ps pages, g_phase = AtFetch, g_fetches = length pages\<rparr>
          (concat (map (page_items a) pages))"
    using drain_cong [OF gen_next_advance [OF c]] by (simp add: params_after_snoc [OF False])
  also have "\<dots> = Some (concat (map (page_items a) pages), Some e,
             \<lparr>g_params = params_after ps pages, g_phase = Finished,
              g_fetches = Suc (length pages)\<rparr>)"
    by (rule drain_fetch_err [where net = net and k = "length pages", OF assms(3)])
  finally show ?thesis .
qed

section \<open>Pagination runs\<close>

text \<open>
  Claim C1. Take a run of \<^verbatim>\<open>get_paged\<close> whose GET calls are answered with the pages of
  a non-empty list, each page but the last carrying a cursor and the last one having
  \<^verbatim>\<open>nextPage\<close> absent or null. Iterated to the end, the run returns: the items it
  yielded are the data fields of the fetched pages (for an array field its elements,
  see \<open>page_items_array\<close>), concatenated in the order of the answers, it ends without
  an exception, and it has made as many GET calls as there are pages, so none after the
  page without a cursor. For pages with cursors 2, 3 and
  null this gives the items of the three pages and three GET calls.
\<close>

theorem get_paged_concat:
  assumes "served py self net path a 0 ps pages"
    and "pages \<noteq> []"
    and "dict_get (last pages) ''nextPage'' = JNull"
  shows "drain py self net path a (get_paged ps) []
     = Some (concat (map (page_items a) pages), None,
             \<lparr>g_params = params_after ps (butlast pages), g_phase = Finished,
              g_fetches = length pages\<rparr>)"
  using drain_served [OF assms(1,2), of "[]"] drain_stop [OF assms(3)]
  by (simp add: get_paged_def)

theorem get_paged_concat_witness:
  "drain example_py (example_client True) three_pages ''cve-id'' ''cve_ids''
     (get_paged Map.empty) []
   = Some ([JStr ''CVE-1'', JStr ''CVE-2'', JStr ''CVE-3'', JStr ''CVE-4'', JStr ''CVE-5''],
           None,
           \<lparr>g_params = [''page'' \<mapsto> JNum 3], g_phase = Finished, g_fetches = 3\<rparr>)"
  using get_paged_concat [OF three_pages_served]
  by (simp add: page_items_page_of next_page_of params_after_def advance_def)

text \<open>
  Claim C6. A first page without any \<^verbatim>\<open>nextPage\<close> field and a first page whose
  \<^verbatim>\<open>nextPage\<close> is null are treated alike: either run yields the items of that page,
  makes exactly one GET call and ends without an exception.
\<close>

theorem get_paged_absent_or_null:
  assumes "fetch_page py self (neta 0) path a ps = Inr (JObj kvsa, items)"
    and "map_of kvsa ''nextPage'' = None"
    and "fetch_page py self (netb 0) path a ps = Inr (JObj kvsb, items)"
    and "map_of kvsb ''nextPage'' = Some JNull"
  shows "drain py self neta path a (get_paged ps) []
           = Some (items, None, \<lparr>g_params = ps, g_phase = Finished, g_fetches = 1\<rparr>)
       \<and> drain py self netb path a (get_paged ps) []
           = Some (items, None, \<lparr>g_params = ps, g_phase = Finished, g_fetches = 1\<rparr>)"
proof -
  have one: "drain py self net path a (get_paged ps) []
           = Some (items, None, \<lparr>g_params = ps, g_phase = Finished, g_fetches = 1\<rparr>)"
    if f: "fetch_page py self (net 0) path a ps = Inr (JObj kvs, items)"
      and n: "dict_get (JObj kvs) ''nextPage'' = JNull" for net kvs
  proof -
    from f have "served py self net path a 0 ps [JObj kvs]"
      using fetch_page_items [OF f] by simp
    from drain_served [OF this, of "[]"] drain_stop [OF n] fetch_page_items [OF f]
    show ?thesis by (simp add: get_paged_def params_after_def)
  qed
  from assms(2) have "dict_get (JObj kvsa) ''nextPage'' = JNull" by (simp add: dict_get_def)
  moreover from assms(4) have "dict_get (JObj kvsb) ''nextPage'' = JNull"
    by (simp add: dict_get_def)
  ultimately show ?thesis
    using one [where net = neta and kvs = kvsa, OF assms(1)]
      one [where net = netb and kvs = kvsb, OF assms(3)] by simp
qed

lemma single_page_absent_fetch:
  "fetch_page example_py (example_client True) (single_page_absent 0) ''cve-id'' ''cve_ids''
     Map.empty
   = Inr (JObj [(''cve_ids'', JArr [JStr ''CVE-1'']), (''totalCount'', JNum 1)], [JStr ''CVE-1''])"
  by (simp add: fetch_page_def get_def http_request_def example_url example_urljoin
      single_page_absent_def build_request_def example_response_def raise_for_status_def
      subscript_def iter_items_def)

lemma single_page_null_fetch:
  "fetch_page example_py (example_client True) (single_page_null 0) ''cve-id'' ''cve_ids''
     Map.empty
   = Inr (JObj [(''cve_ids'', JArr [JStr ''CVE-1'']), (''nextPage'', JNull)], [JStr ''CVE-1''])"
  by (simp add: fetch_page_def get_def http_request_def example_url example_urljoin
      single_page_null_def build_request_def example_response_def raise_for_status_def
      subscript_def iter_items_def page_of_def)

theorem get_paged_absent_or_null_witness:
  "drain example_py (example_client True) single_page_absent ''cve-id'' ''cve_ids''
      (get_paged Map.empty) []
     = Some ([JStr ''CVE-1''], None,
             \<lparr>g_params = Map.empty, g_phase = Finished, g_fetches = 1\<rparr>)
   \<and> drain example_py (example_client True) single_page_null ''cve-id'' ''cve_ids''
      (get_paged Map.empty) []
     = Some ([JStr ''CVE-1''], None,
             \<lparr>g_params = Map.empty, g_phase = Finished, g_fetches = 1\<rparr>)"
  using get_paged_absent_or_null [where py = example_py and self = "example_client True"
      and neta = single_page_absent and netb = single_page_null
      and path = "''cve-id''" and a = "''cve_ids''" and ps = Map.empty
      and kvsa = "[(''cve_ids'', JArr [JStr ''CVE-1'']), (''totalCount'', JNum 1)]"
      and kvsb = "[(''cve_ids'', JArr [JStr ''CVE-1'']), (''nextPage'', JNull)]"
      and items = "[JStr ''CVE-1'']"]
    single_page_absent_fetch single_page_null_fetch
  by simp

text \<open>
  Claim C9. Calling \<^verbatim>\<open>get_paged\<close> fetches nothing. A consumer that takes \<open>n\<close>
  items and then stops receives the first \<open>n\<close> items of the pages, and as long as
  \<open>n\<close> does not exceed the number of items of the first \<open>k\<close> pages, at most \<open>k\<close>
  GET calls have been made: page \<open>k + 1\<close> is not fetched before the consumer asks for
  an item beyond page \<open>k\<close>, and stopping causes no further fetch.
\<close>

theorem get_paged_lazy:
  assumes "served py self net path a 0 ps pages"
    and "n \<le> item_count a (take k pages)"
  shows "g_fetches (get_paged ps) = 0
       \<and> (\<exists>st. consume py self net path a n (get_paged ps)
                = Some (take n (concat (map (page_items a) pages)), st)
             \<and> g_fetches st \<le> k)"
  using consume_served [OF assms] by (simp add: get_paged_def)

theorem get_paged_lazy_witness:
  "g_fetches (get_paged Map.empty) = 0
   \<and> (\<exists>st. consume example_py (example_client True) three_pages ''cve-id'' ''cve_ids'' 2
             (get_paged Map.empty)
           = Some ([JStr ''CVE-1'', JStr ''CVE-2''], st)
         \<and> g_fetches st \<le> 1)"
  using get_paged_lazy [OF three_pages_served, of 2 1]
  by (simp add: item_count_def page_items_page_of)

text \<open>
  Claim C10, as amended. When the pages fetched so far all carry a cursor and the next
  answer decodes to an object without the data field, iterating \<^verbatim>\<open>get_paged\<close> raises
  \<^verbatim>\<open>KeyError\<close> at that page: the run neither treats the page as empty nor stops
  cleanly. The items of the earlier pages were yielded before, and the consumer had
  received all of them before the failing GET call was made.
\<close>

theorem get_paged_missing_field:
  assumes "served py self net path a 0 ps pages"
    and "pages = [] \<or> dict_get (last pages) ''nextPage'' \<noteq> JNull"
    and "get py self (net (length pages)) path (Some (params_after ps pages)) = Inr r"
    and "body_json r = Some (JObj kvs)"
    and "map_of kvs a = None"
  shows "drain py self net path a (get_paged ps) []
     = Some (concat (map (page_items a) pages), Some (KeyError a),
             \<lparr>g_params = params_after ps pages, g_phase = Finished,
              g_fetches = Suc (length pages)\<rparr>)
   \<and> (\<exists>st. consume py self net path a (item_count a pages) (get_paged ps)
             = Some (concat (map (page_items a) pages), st)
           \<and> g_fetches st \<le> length pages)"
proof
  from fetch_page_key_error [OF assms(3,4,5)]
  have "fetch_page py self (net (length pages)) path a (params_after ps pages)
          = Inl (KeyError a)" .
  from drain_served_then_error [OF assms(1,2) this]
  show "drain py self net path a (get_paged ps) []
     = Some (concat (map (page_items a) pages), Some (KeyError a),
             \<lparr>g_params = params_after ps pages, g_phase = Finished,
              g_fetches = Suc (length pages)\<rparr>)" .
next
  have "item_count a pages \<le> item_count a (take (length pages) pages)" by simp
  from consume_served [OF assms(1) this]
  show "\<exists>st. consume py self net path a (item_count a pages) (get_paged ps)
             = Some (concat (map (page_items a) pages), st)
           \<and> g_fetches st \<le> length pages"
    by (simp add: get_paged_def item_count_def)
qed

lemma broken_second_page_served:
  "served example_py (example_client True) broken_second_page ''cve-id'' ''cve_ids'' 0 Map.empty
     [page_of [JStr ''CVE-1'', JStr ''CVE-2''] (JNum 2)]"
  by (simp add: fetch_page_def get_def http_request_def example_url example_urljoin
      broken_second_page_def build_request_def example_response_def raise_for_status_def
      page_items_page_of)
     (simp add: page_of_def subscript_def iter_items_def)

lemma broken_second_page_get:
  "get example_py (example_client True) (broken_second_page (Suc 0)) ''cve-id'' (Some ps)
     = Inr \<lparr>status_code = 200, reason = ''OK'',
            resp_url = ''https://cveawg.mitre.org/api/cve-id'', content = [],
            body_json = Some (JObj [(''nextPage'', JNull)])\<rparr>"
  by (simp add: get_def http_request_def example_url example_urljoin
      broken_second_page_def build_request_def example_response_def raise_for_status_def)

theorem get_paged_missing_field_witness:
  "drain example_py (example_client True) broken_second_page ''cve-id'' ''cve_ids''
      (get_paged Map.empty) []
     = Some ([JStr ''CVE-1'', JStr ''CVE-2''], Some (KeyError ''cve_ids''),
             \<lparr>g_params = [''page'' \<mapsto> JNum 2], g_phase = Finished, g_fetches = 2\<rparr>)
   \<and> (\<exists>st. consume example_py (example_client True) broken_second_page ''cve-id'' ''cve_ids'' 2
              (get_paged Map.empty)
             = Some ([JStr ''CVE-1'', JStr ''CVE-2''], st)
           \<and> g_fetches st \<le> 1)"
  using get_paged_missing_field [where py = example_py and self = "example_client True"
      and net = broken_second_page and path = "''cve-id''" and a = "''cve_ids''"
      and ps = Map.empty and pages = "[page_of [JStr ''CVE-1'', JStr ''CVE-2''] (JNum 2)]"
      and kvs = "[(''nextPage'', JNull)]"
      and r = "\<lparr>status_code = 200, reason = ''OK'',
            resp_url = ''https://cveawg.mitre.org/api/cve-id'', content = [],
            body_json = Some (JObj [(''nextPage'', JNull)])\<rparr>"]
    broken_second_page_served broken_second_page_get
  by (simp add: page_items_page_of next_page_of params_after_def advance_def item_count_def
      numeral_2_eq_2)

lemma array_body_fetch:
  "fetch_page example_py (example_client True) (array_body 0) ''cve-id'' ''cve_ids'' Map.empty
     = Inl TypeError"
  by (simp add: fetch_page_def get_def http_request_def example_url example_urljoin
      array_body_def build_request_def example_response_def raise_for_status_def
      subscript_def)

lemma number_field_fetch:
  "fetch_page example_py (example_client True) (number_field 0) ''cve-id'' ''cve_ids'' Map.empty
     = Inl TypeError"
  by (simp add: fetch_page_def get_def http_request_def example_url example_urljoin
      number_field_def build_request_def example_response_def raise_for_status_def
      subscript_def iter_items_def)

text \<open>
  The claim as stated fails for a decoded body that is no object, and for an object
  whose data field is no array: the subscript or the iteration raises \<^verbatim>\<open>TypeError\<close>,
  not a key-lookup error.
\<close>

theorem get_paged_no_array_counterexample:
  "drain example_py (example_client True) array_body ''cve-id'' ''cve_ids''
      (get_paged Map.empty) []
     = Some ([], Some TypeError,
             \<lparr>g_params = Map.empty, g_phase = Finished, g_fetches = 1\<rparr>)
   \<and> drain example_py (example_client True) number_field ''cve-id'' ''cve_ids''
      (get_paged Map.empty) []
     = Some ([], Some TypeError,
             \<lparr>g_params = Map.empty, g_phase = Finished, g_fetches = 1\<rparr>)"
  using drain_fetch_err [where net = array_body and k = 0, OF array_body_fetch]
    drain_fetch_err [where net = number_field and k = 0, OF number_field_fetch]
  by (simp add: get_paged_def)

section \<open>What \<^verbatim>\<open>http_request\<close> returns and raises\<close>

text \<open>
  Claim C4. Let the transport answer the request with a response. When \<^verbatim>\<open>raise_exc\<close>
  is enabled and the status is an error status (400 to 599, the statuses for which
  \<^verbatim>\<open>raise_for_status\<close> raises), \<^verbatim>\<open>http_request\<close> raises \<^verbatim>\<open>IdrException\<close>; its message
  is the description of the HTTP error, then \<^verbatim>\<open>; returned error: \<close>, then the body:
  the decoded JSON value when the body is JSON, the raw bytes otherwise. When
  \<^verbatim>\<open>raise_exc\<close> is disabled, the response is returned as it is, whatever its status.
\<close>

theorem http_request_error_policy:
  assumes "urljoin py (url self) path = Inr u"
    and "t (build_request self verb u kw) = Responds r"
  shows "http_request py self t verb path kw =
     (if raise_exc self \<and> error_status (status_code r)
      then Inl (IdrException (http_error_msg r @ ''; returned error: ''
             @ (case body_json r of
                  Some j \<Rightarrow> str_of_json py j
                | None \<Rightarrow> str_of_bytes py (content r))))
      else Inr r)"
  by (rule http_request_responds [where t = t, OF assms])

lemma example_py_str:
  "str_of_json example_py j = ''{...}''" "str_of_bytes example_py b = b"
  by (simp_all add: example_py_def)

lemma example_raise_exc: "raise_exc (example_client raise) = raise"
  by (simp add: example_client_def)

lemma show_nat_404: "show_nat 404 = ''404''"
  by code_simp

lemma show_nat_500: "show_nat 500 = ''500''"
  by code_simp

theorem http_request_error_policy_witness:
  "http_request example_py (example_client True)
      (\<lambda>req. Responds (example_response 404 ''Not Found'' ''{\"error\": \"x\"}''
                 (Some (JObj [(''error'', JStr ''x'')])) req))
      ''get'' ''cve-id'' None
     = Inl (IdrException
         ''404 Client Error: Not Found for url: https://cveawg.mitre.org/api/cve-id; returned error: {...}'')
   \<and> http_request example_py (example_client True)
      (\<lambda>req. Responds (example_response 500 ''Internal Server Error'' ''<html>oops</html>'' None req))
      ''get'' ''cve-id'' None
     = Inl (IdrException
         ''500 Server Error: Internal Server Error for url: https://cveawg.mitre.org/api/cve-id; returned error: <html>oops</html>'')
   \<and> http_request example_py (example_client False)
      (\<lambda>req. Responds (example_response 500 ''Internal Server Error'' ''<html>oops</html>'' None req))
      ''get'' ''cve-id'' None
     = Inr \<lparr>status_code = 500, reason = ''Internal Server Error'',
            resp_url = ''https://cveawg.mitre.org/api/cve-id'', content = ''<html>oops</html>'',
            body_json = None\<rparr>"
  using http_request_error_policy [where py = example_py and self = "example_client True"
      and path = "''cve-id''" and u = "''https://cveawg.mitre.org/api/cve-id''"
      and verb = "''get''" and kw = None
      and t = "\<lambda>req. Responds (example_response 404 ''Not Found'' ''{\"error\": \"x\"}''
                 (Some (JObj [(''error'', JStr ''x'')])) req)"
      and r = "example_response 404 ''Not Found'' ''{\"error\": \"x\"}''
                 (Some (JObj [(''error'', JStr ''x'')]))
                 (build_request (example_client True) ''get''
                    ''https://cveawg.mitre.org/api/cve-id'' None)"]
    http_request_error_policy [where py = example_py and self = "example_client True"
      and path = "''cve-id''" and u = "''https://cveawg.mitre.org/api/cve-id''"
      and verb = "''get''" and kw = None
      and t = "\<lambda>req. Responds (example_response 500 ''Internal Server Error''
                 ''<html>oops</html>'' None req)"
      and r = "example_response 500 ''Internal Server Error'' ''<html>oops</html>'' None
                 (build_request (example_client True) ''get''
                    ''https://cveawg.mitre.org/api/cve-id'' None)"]
    http_request_error_policy [where py = example_py and self = "example_client False"
      and path = "''cve-id''" and u = "''https://cveawg.mitre.org/api/cve-id''"
      and verb = "''get''" and kw = None
      and t = "\<lambda>req. Responds (example_response 500 ''Internal Server Error''
                 ''<html>oops</html>'' None req)"
      and r = "example_response 500 ''Internal Server Error'' ''<html>oops</html>'' None
                 (build_request (example_client False) ''get''
                    ''https://cveawg.mitre.org/api/cve-id'' None)"]
  by (simp add: example_url example_urljoin example_response_def build_request_def
      error_status_def http_error_msg_def show_nat_404 show_nat_500 example_py_str
      example_raise_exc)

text \<open>
  Claim C2, as amended. On a request that the transport answers with a response, the
  only exception \<^verbatim>\<open>http_request\<close> raises is \<^verbatim>\<open>IdrException\<close>, one type without
  subtypes, and it raises it exactly when \<^verbatim>\<open>raise_exc\<close> is enabled and the status is an
  error status (400 to 599); every other response is returned to the caller.
\<close>

theorem http_request_single_error_type:
  assumes "urljoin py (url self) path = Inr u"
    and "t (build_request self verb u kw) = Responds r"
  shows "case http_request py self t verb path kw of
           Inl e \<Rightarrow> (\<exists>msg. e = IdrException msg)
                    \<and> raise_exc self \<and> error_status (status_code r)
         | Inr r' \<Rightarrow> r' = r \<and> \<not> (raise_exc self \<and> error_status (status_code r))"
  by (simp add: http_request_responds [where t = t, OF assms])

theorem http_request_single_error_type_witness:
  "(case http_request example_py (example_client True)
      (\<lambda>req. Responds (example_response 404 ''Not Found'' ''gone'' None req))
      ''get'' ''cve-id'' None of
      Inl e \<Rightarrow> (\<exists>msg. e = IdrException msg)
    | Inr r' \<Rightarrow> False)
   \<and> (case http_request example_py (example_client True)
      (\<lambda>req. Responds (example_response 200 ''OK'' ''{}'' (Some (JObj [])) req))
      ''get'' ''cve-id'' None of
      Inl e \<Rightarrow> False
    | Inr r' \<Rightarrow> status_code r' = 200)"
  using http_request_single_error_type [where py = example_py and self = "example_client True"
      and path = "''cve-id''" and u = "''https://cveawg.mitre.org/api/cve-id''"
      and verb = "''get''" and kw = None
      and t = "\<lambda>req. Responds (example_response 404 ''Not Found'' ''gone'' None req)"
      and r = "example_response 404 ''Not Found'' ''gone'' None
                 (build_request (example_client True) ''get''
                    ''https://cveawg.mitre.org/api/cve-id'' None)"]
    http_request_single_error_type [where py = example_py and self = "example_client True"
      and path = "''cve-id''" and u = "''https://cveawg.mitre.org/api/cve-id''"
      and verb = "''get''" and kw = None
      and t = "\<lambda>req. Responds (example_response 200 ''OK'' ''{}'' (Some (JObj [])) req)"
      and r = "example_response 200 ''OK'' ''{}'' (Some (JObj []))
                 (build_request (example_client True) ''get''
                    ''https://cveawg.mitre.org/api/cve-id'' None)"]
  by (auto simp: example_url example_urljoin example_response_def
      error_status_def example_raise_exc split: sum.splits)

text \<open>
  The claim as stated fails. What \<^verbatim>\<open>requests.request\<close> raises (a timeout, a refused
  connection) reaches the caller as that exception of the requests library, one type per
  failure, and not as \<^verbatim>\<open>IdrException\<close>; a status 500 is returned, not raised, when
  \<^verbatim>\<open>raise_exc\<close> is disabled; and a status outside 200 to 299 that is no error status,
  such as 304, is returned even when \<^verbatim>\<open>raise_exc\<close> is enabled.
\<close>

theorem http_request_transport_failure_counterexample:
  "http_request example_py (example_client True) (\<lambda>req. Raises Timeout) ''get'' ''cve-id'' None
     = Inl (RequestsError Timeout)
   \<and> http_request example_py (example_client True) (\<lambda>req. Raises ConnectionError)
       ''get'' ''cve-id'' None
     = Inl (RequestsError ConnectionError)
   \<and> http_request example_py (example_client False)
       (\<lambda>req. Responds (example_response 500 ''Internal Server Error'' ''oops'' None req))
       ''get'' ''cve-id'' None
     = Inr \<lparr>status_code = 500, reason = ''Internal Server Error'',
            resp_url = ''https://cveawg.mitre.org/api/cve-id'', content = ''oops'',
            body_json = None\<rparr>
   \<and> http_request example_py (example_client True)
       (\<lambda>req. Responds (example_response 304 ''Not Modified'' [] None req))
       ''get'' ''cve-id'' None
     = Inr \<lparr>status_code = 304, reason = ''Not Modified'',
            resp_url = ''https://cveawg.mitre.org/api/cve-id'', content = [],
            body_json = None\<rparr>"
  by (simp add: http_request_def example_url example_urljoin example_response_def
      build_request_def raise_for_status_def example_raise_exc)

section \<open>The host of the joined URL\<close>

subsection \<open>Characters\<close>

lemma scheme_char_code: "scheme_char c \<Longrightarrow> 43 \<le> (of_char c :: nat)"
  by (auto simp: scheme_char_def ascii_alpha_def Let_def)

lemma scheme_char_not_c0: "scheme_char c \<Longrightarrow> \<not> c0_or_space c"
  by (drule scheme_char_code) (simp add: c0_or_space_def)

lemma scheme_char_not_unsafe: "scheme_char c \<Longrightarrow> \<not> unsafe_byte c"
  by (drule scheme_char_code) (auto simp: unsafe_byte_def)

lemma scheme_char_not_colon: "scheme_char c \<Longrightarrow> c \<noteq> CHR '':''"
  by (auto simp: scheme_char_def ascii_alpha_def Let_def)

lemma ascii_alpha_lower: "ascii_alpha c \<Longrightarrow> ascii_alpha (lower_char c)"
  by (auto simp: ascii_alpha_def lower_char_def Let_def)

lemma scheme_char_lower: "scheme_char c \<Longrightarrow> scheme_char (lower_char c)"
  by (auto simp: scheme_char_def ascii_alpha_def lower_char_def Let_def)

lemma lower_char_idem: "lower_char (lower_char c) = lower_char c"
  by (auto simp: lower_char_def Let_def)

lemma netloc_delim_not_unsafe: "netloc_delim c \<Longrightarrow> \<not> unsafe_byte c"
  by (auto simp: netloc_delim_def unsafe_byte_def)

lemma good_scheme_lower:
  "pre \<noteq> [] \<Longrightarrow> ascii_alpha (hd pre) \<Longrightarrow> list_all scheme_char pre \<Longrightarrow> good_scheme (lower pre)"
  by (cases pre)
     (auto simp: good_scheme_def lower_def ascii_alpha_lower scheme_char_lower lower_char_idem
        list_all_iff)

subsection \<open>Cleaning a URL\<close>

lemma strip_c0_scheme: "list_all scheme_char s \<Longrightarrow> remove_unsafe (strip_c0 s) = s"
proof -
  assume a: "list_all scheme_char s"
  then have n: "\<forall>c \<in> set s. \<not> c0_or_space c" "\<forall>c \<in> set s. \<not> unsafe_byte c"
    by (auto simp: list_all_iff scheme_char_not_c0 scheme_char_not_unsafe)
  from n(1) have d: "dropWhile c0_or_space s = s" by (cases s) auto
  from n(1) have "dropWhile c0_or_space (rev s) = rev s" by (cases "rev s") (auto simp: rev_eq_Cons_iff dest: arg_cong [where f = set])
  with d have "strip_c0 s = s" by (simp add: strip_c0_def)
  with n(2) show ?thesis by (simp add: remove_unsafe_def)
qed

lemma remove_unsafe_free: "\<forall>c \<in> set s. \<not> unsafe_byte c \<Longrightarrow> remove_unsafe s = s"
  by (simp add: remove_unsafe_def)

lemma set_remove_unsafe: "c \<in> set (remove_unsafe s) \<Longrightarrow> \<not> unsafe_byte c"
  by (simp add: remove_unsafe_def)

lemma split_scheme_rest_subset:
  "split_scheme u d = (sc, v) \<Longrightarrow> set v \<subseteq> set u"
  by (auto simp: split_scheme_def Let_def split: if_splits dest: in_set_dropD)

lemma split_scheme_no_scheme: "\<not> has_scheme u \<Longrightarrow> split_scheme u d = (d, u)"
  by (auto simp: split_scheme_def has_scheme_def Let_def)

lemma split_scheme_found:
  "split_scheme u [] = (sc, v) \<Longrightarrow> sc \<noteq> [] \<Longrightarrow> good_scheme sc"
  by (auto simp: split_scheme_def Let_def good_scheme_lower split: if_splits)

subsection \<open>When \<^verbatim>\<open>urlsplit\<close> returns\<close>

lemma urlsplit_unfold:
  "urlsplit py u0 d =
     (let p = split_scheme (remove_unsafe (lstrip_c0 u0)) (remove_unsafe (strip_c0 d));
          nl = (if take 2 (snd p) = ''//'' then splitnetloc (snd p) else ([], snd p));
          f = (if CHR ''#'' \<in> set (snd nl) then split_first (CHR ''#'') (snd nl) else (snd nl, []));
          q = (if CHR ''?'' \<in> set (fst f) then split_first (CHR ''?'') (fst f) else (fst f, []))
      in case check_netloc py (fst nl) of
           Some e \<Rightarrow> Inl e
         | None \<Rightarrow> Inr \<lparr>sr_scheme = fst p, sr_netloc = fst nl, sr_path = fst q,
                        sr_query = snd q, sr_fragment = snd f\<rparr>)"
  by (simp only: urlsplit_def Let_def split_def)

lemma urlsplit_InrD:
  assumes "urlsplit py u0 d = Inr r"
  shows "\<exists>u. split_scheme (remove_unsafe (lstrip_c0 u0)) (remove_unsafe (strip_c0 d))
               = (sr_scheme r, u)
           \<and> sr_netloc r = (if take 2 u = ''//'' then fst (splitnetloc u) else [])
           \<and> check_netloc py (sr_netloc r) = None"
proof -
  obtain sc u where p: "split_scheme (remove_unsafe (lstrip_c0 u0)) (remove_unsafe (strip_c0 d))
               = (sc, u)"
    by (cases "split_scheme (remove_unsafe (lstrip_c0 u0)) (remove_unsafe (strip_c0 d))")
  define n where "n = (if take 2 u = ''//'' then fst (splitnetloc u) else [])"
  have n: "fst (if take 2 u = ''//'' then splitnetloc u else ([], u)) = n"
    by (simp only: n_def if_distrib [of fst] fst_conv)
  from assms have c: "check_netloc py n = None \<and> sr_scheme r = sc \<and> sr_netloc r = n"
    unfolding urlsplit_unfold Let_def p snd_conv fst_conv n
    by (cases "check_netloc py n") (simp_all only: option.case sum.inject sum.distinct, auto)
  show ?thesis
  proof (intro exI conjI)
    show "split_scheme (remove_unsafe (lstrip_c0 u0)) (remove_unsafe (strip_c0 d))
            = (sr_scheme r, u)"
      using p c by (simp only:)
    show "sr_netloc r = (if take 2 u = ''//'' then fst (splitnetloc u) else [])"
      using c n_def by (simp only:)
    show "check_netloc py (sr_netloc r) = None"
      using c by (simp only:)
  qed
qed

lemma urlsplit_InrI:
  assumes "split_scheme (remove_unsafe (lstrip_c0 u0)) (remove_unsafe (strip_c0 d)) = (sc, u)"
    and "n = (if take 2 u = ''//'' then fst (splitnetloc u) else [])"
    and "check_netloc py n = None"
  shows "\<exists>r. urlsplit py u0 d = Inr r \<and> sr_scheme r = sc \<and> sr_netloc r = n"
proof -
  have n: "fst (if take 2 u = ''//'' then splitnetloc u else ([], u)) = n"
    by (simp only: assms(2) if_distrib [of fst] fst_conv)
  show ?thesis
    unfolding urlsplit_unfold Let_def assms(1) snd_conv fst_conv n assms(3) option.case
    by (simp only: sum.inject) (rule exI, rule conjI, rule refl, simp only: split_result.simps simp_thms)
qed

lemma urlsplit_netloc_chars:
  assumes "urlsplit py u0 d = Inr r" and "c \<in> set (sr_netloc r)"
  shows "\<not> netloc_delim c \<and> \<not> unsafe_byte c"
proof -
  from urlsplit_InrD [OF assms(1)] obtain u where
    p: "split_scheme (remove_unsafe (lstrip_c0 u0)) (remove_unsafe (strip_c0 d)) = (sr_scheme r, u)"
    and n: "sr_netloc r = (if take 2 u = ''//'' then fst (splitnetloc u) else [])"
    by blast
  from assms(2) n have c: "c \<in> set (takeWhile (\<lambda>c. \<not> netloc_delim c) (drop 2 u))"
    by (cases "take 2 u = ''//''") (simp_all add: splitnetloc_def)
  then have "\<not> netloc_delim c" and "c \<in> set u"
    by (auto dest: set_takeWhileD in_set_dropD)
  with split_scheme_rest_subset [OF p] have "c \<in> set (remove_unsafe (lstrip_c0 u0))" by blast
  with \<open>\<not> netloc_delim c\<close> show ?thesis by (simp add: set_remove_unsafe)
qed

lemma urlsplit_scheme_good:
  assumes "urlsplit py u0 [] = Inr r" and "sr_scheme r \<noteq> []"
  shows "good_scheme (sr_scheme r)"
proof -
  from urlsplit_InrD [OF assms(1)] obtain u where
    "split_scheme (remove_unsafe (lstrip_c0 u0)) (remove_unsafe (strip_c0 [])) = (sr_scheme r, u)"
    by blast
  then have "split_scheme (remove_unsafe (lstrip_c0 u0)) [] = (sr_scheme r, u)"
    by (simp add: strip_c0_def remove_unsafe_def)
  from split_scheme_found [OF this assms(2)] show ?thesis .
qed

lemma check_netloc_empty: "check_netloc py [] = None"
  by (simp add: check_netloc_def)

lemma good_scheme_clean: "good_scheme d \<Longrightarrow> remove_unsafe (strip_c0 d) = d"
  by (simp add: good_scheme_def strip_c0_scheme)

lemma urlsplit_relative_ref:
  assumes "relative_ref path" and "good_scheme d"
  shows "\<exists>r. urlsplit py path d = Inr r \<and> sr_scheme r = d \<and> sr_netloc r = []"
proof -
  let ?q = "remove_unsafe (lstrip_c0 path)"
  from assms(1) have ns: "\<not> has_scheme ?q" and nn: "take 2 ?q \<noteq> ''//''"
    by (simp_all add: relative_ref_def Let_def)
  have p: "split_scheme ?q (remove_unsafe (strip_c0 d)) = (d, ?q)"
    by (simp only: good_scheme_clean [OF assms(2)] split_scheme_no_scheme [OF ns])
  have n: "[] = (if take 2 ?q = ''//'' then fst (splitnetloc ?q) else [])"
    using nn by (simp only: if_False)
  from urlsplit_InrI [OF p n check_netloc_empty] show ?thesis .
qed

subsection \<open>Reading a joined URL back\<close>

lemma urlparse_of_urlsplit:
  "urlsplit py u d = Inr r \<Longrightarrow>
   \<exists>b. urlparse py u d = Inr b \<and> pr_scheme b = sr_scheme r \<and> pr_netloc b = sr_netloc r"
  by (simp add: urlparse_def split_def Let_def)

lemma urlunparse_shape:
  assumes "sc \<noteq> []" and "sc \<in> set uses_netloc"
  shows "\<exists>rest. urlunparse sc n P ps Q F = sc @ '':'' @ ''//'' @ n @ rest
           \<and> (rest = [] \<or> netloc_delim (hd rest))"
proof -
  define P' where "P' = (if ps \<noteq> [] then P @ '';'' @ ps else P)"
  define P'' where "P'' = (if P' \<noteq> [] \<and> take 1 P' \<noteq> ''/'' then ''/'' @ P' else P')"
  define rest where "rest = P'' @ (if Q \<noteq> [] then ''?'' @ Q else []) @ (if F \<noteq> [] then ''#'' @ F else [])"
  have hd: "P'' = [] \<or> hd P'' = CHR ''/''"
    by (cases P') (auto simp: P''_def)
  have "urlunparse sc n P ps Q F = sc @ '':'' @ ''//'' @ n @ rest"
    using assms by (simp add: urlunparse_def urlunsplit_def Let_def rest_def P''_def P'_def)
  moreover from hd have "rest = [] \<or> netloc_delim (hd rest)"
    by (cases P'') (auto simp: rest_def netloc_delim_def)
  ultimately show ?thesis by blast
qed

lemma good_scheme_no_colon: "good_scheme sc \<Longrightarrow> CHR '':'' \<notin> set sc"
  by (auto simp: good_scheme_def list_all_iff dest: scheme_char_not_colon)

lemma split_scheme_prefix:
  assumes "good_scheme sc"
  shows "split_scheme (sc @ CHR '':'' # y) d = (sc, y)"
proof -
  from good_scheme_no_colon [OF assms] have "\<forall>x \<in> set sc. x \<noteq> CHR '':''" by blast
  then have tw: "takeWhile (\<lambda>x. x \<noteq> CHR '':'') (sc @ CHR '':'' # y) = sc"
    by (simp add: takeWhile_tail)
  from assms show ?thesis
    by (simp add: split_scheme_def tw good_scheme_def)
qed

lemma clean_joined:
  assumes "good_scheme sc" and "\<forall>c \<in> set n. \<not> unsafe_byte c"
  shows "remove_unsafe (lstrip_c0 (sc @ '':'' @ ''//'' @ n @ rest))
           = sc @ CHR '':'' # (''//'' @ n @ remove_unsafe rest)"
proof -
  from assms(1) have "sc \<noteq> []" "\<not> c0_or_space (hd sc)" "\<forall>c \<in> set sc. \<not> unsafe_byte c"
    by (cases sc; auto simp: good_scheme_def list_all_iff scheme_char_not_c0 scheme_char_not_unsafe)+
  then have "lstrip_c0 (sc @ '':'' @ ''//'' @ n @ rest) = sc @ '':'' @ ''//'' @ n @ rest"
    by (cases sc) (auto simp: lstrip_c0_def)
  with \<open>\<forall>c \<in> set sc. \<not> unsafe_byte c\<close> assms(2) show ?thesis
    by (simp add: remove_unsafe_def unsafe_byte_def)
qed

lemma splitnetloc_joined:
  assumes "\<forall>c \<in> set n. \<not> netloc_delim c" and "rest = [] \<or> netloc_delim (hd rest)"
  shows "fst (splitnetloc (''//'' @ n @ rest)) = n"
proof (cases rest)
  case Nil
  with assms(1) show ?thesis by (simp add: splitnetloc_def)
next
  case (Cons x xs)
  with assms(2) have "netloc_delim x" by simp
  with assms(1) Cons show ?thesis by (simp add: splitnetloc_def takeWhile_tail)
qed

lemma remove_unsafe_rest:
  "rest = [] \<or> netloc_delim (hd rest) \<Longrightarrow>
   remove_unsafe rest = [] \<or> netloc_delim (hd (remove_unsafe rest))"
  by (cases rest) (auto simp: remove_unsafe_def dest: netloc_delim_not_unsafe)

lemma urlsplit_joined:
  assumes "good_scheme sc"
    and "\<forall>c \<in> set n. \<not> netloc_delim c \<and> \<not> unsafe_byte c"
    and "check_netloc py n = None"
    and "rest = [] \<or> netloc_delim (hd rest)"
  shows "\<exists>r. urlsplit py (sc @ '':'' @ ''//'' @ n @ rest) d = Inr r
           \<and> sr_scheme r = sc \<and> sr_netloc r = n"
proof -
  let ?u = "''//'' @ n @ remove_unsafe rest"
  have p: "split_scheme (remove_unsafe (lstrip_c0 (sc @ '':'' @ ''//'' @ n @ rest)))
             (remove_unsafe (strip_c0 d)) = (sc, ?u)"
  proof -
    from assms(2) have nu: "\<forall>c \<in> set n. \<not> unsafe_byte c" by blast
    show ?thesis
      by (simp only: clean_joined [OF assms(1) nu] split_scheme_prefix [OF assms(1)])
  qed
  have t: "take 2 ?u = ''//''" by simp
  have "fst (splitnetloc ?u) = n"
    using assms(2) by (intro splitnetloc_joined remove_unsafe_rest [OF assms(4)]) blast
  with t have n: "n = (if take 2 ?u = ''//'' then fst (splitnetloc ?u) else [])"
    by (simp only: refl if_True)
  from urlsplit_InrI [OF p n assms(3)] show ?thesis .
qed

subsection \<open>Joining a relative reference\<close>

lemma urlsplit_empty_scheme: "urlsplit py [] [] = Inr r \<Longrightarrow> sr_scheme r = []"
  by (drule urlsplit_InrD)
     (simp add: lstrip_c0_def strip_c0_def remove_unsafe_def split_scheme_def)

lemma urljoin_relative_ref:
  assumes "urlsplit py base [] = Inr b"
    and "sr_scheme b \<noteq> []"
    and "sr_scheme b \<in> set uses_relative"
    and "sr_scheme b \<in> set uses_netloc"
    and "relative_ref path"
    and "path \<noteq> []"
  shows "\<exists>P ps Q F. urljoin py base path
           = Inr (urlunparse (sr_scheme b) (sr_netloc b) P ps Q F)"
proof -
  from assms(1,2) have base: "base \<noteq> []" by (auto dest: urlsplit_empty_scheme)
  from urlparse_of_urlsplit [OF assms(1)] obtain bb where
    bb: "urlparse py base [] = Inr bb" "pr_scheme bb = sr_scheme b" "pr_netloc bb = sr_netloc b"
    by blast
  from urlsplit_relative_ref [OF assms(5) urlsplit_scheme_good [OF assms(1,2)]] obtain r where
    r: "urlsplit py path (sr_scheme b) = Inr r" "sr_scheme r = sr_scheme b" "sr_netloc r = []"
    by blast
  from urlparse_of_urlsplit [OF r(1)] r(2,3) obtain rr where
    rr: "urlparse py path (sr_scheme b) = Inr rr" "pr_scheme rr = sr_scheme b" "pr_netloc rr = []"
    by auto
  show ?thesis
  proof (cases "pr_path rr = [] \<and> pr_params rr = []")
    case True
    with base assms(3,4,6) bb rr
    have "urljoin py base path
            = Inr (urlunparse (sr_scheme b) (sr_netloc b) (pr_path bb) (pr_params bb)
                     (if pr_query rr = [] then pr_query bb else pr_query rr) (pr_fragment rr))"
      by (simp add: urljoin_def Let_def)
    then show ?thesis by blast
  next
    case False
    with base assms(3,4,6) bb rr
    have "urljoin py base path
            = Inr (urlunparse (sr_scheme b) (sr_netloc b)
                     (resolve_path (pr_path bb) (pr_path rr))
                     (pr_params rr) (pr_query rr) (pr_fragment rr))"
      by (auto simp: urljoin_def Let_def)
    then show ?thesis by blast
  qed
qed

text \<open>
  Claim C3, as amended. Let the base URL of the client have a scheme that \<^verbatim>\<open>urljoin\<close>
  resolves relative references for and that takes a network location (\<^verbatim>\<open>https\<close>,
  \<^verbatim>\<open>http\<close>). For every path that is a relative reference without a scheme and
  without a leading \<^verbatim>\<open>//\<close> (after the cleaning that \<^verbatim>\<open>urlsplit\<close> applies: leading
  control characters and spaces stripped, tab, CR and LF removed), \<^verbatim>\<open>urljoin\<close> returns a
  URL that, read back with \<^verbatim>\<open>urlsplit\<close>, has the network location and the scheme of
  the base URL: the request stays on the configured host.
\<close>

theorem urljoin_same_host:
  assumes "urlsplit py (url self) [] = Inr b"
    and "sr_scheme b \<noteq> []"
    and "sr_scheme b \<in> set uses_relative"
    and "sr_scheme b \<in> set uses_netloc"
    and "relative_ref path"
  shows "\<exists>u. urljoin py (url self) path = Inr u
           \<and> netloc_of py u = Some (sr_netloc b)
           \<and> scheme_of py u = Some (sr_scheme b)"
proof (cases "path = []")
  case True
  from assms(1,2) have "url self \<noteq> []" by (auto dest: urlsplit_empty_scheme)
  with True have "urljoin py (url self) path = Inr (url self)" by (simp add: urljoin_def)
  with assms(1) show ?thesis by (simp add: netloc_of_def scheme_of_def)
next
  case False
  from urljoin_relative_ref [OF assms False] obtain P ps Q F where
    j: "urljoin py (url self) path = Inr (urlunparse (sr_scheme b) (sr_netloc b) P ps Q F)"
    by blast
  from urlunparse_shape [OF assms(2,4)] obtain rest where
    s: "urlunparse (sr_scheme b) (sr_netloc b) P ps Q F
          = sr_scheme b @ '':'' @ ''//'' @ sr_netloc b @ rest"
    and d: "rest = [] \<or> netloc_delim (hd rest)"
    by blast
  from urlsplit_InrD [OF assms(1)] have ck: "check_netloc py (sr_netloc b) = None" by blast
  have nc: "\<forall>c \<in> set (sr_netloc b). \<not> netloc_delim c \<and> \<not> unsafe_byte c"
    using urlsplit_netloc_chars [OF assms(1)] by blast
  from urlsplit_joined [OF urlsplit_scheme_good [OF assms(1,2)] nc ck d, of "[]"]
  obtain r where "urlsplit py (sr_scheme b @ '':'' @ ''//'' @ sr_netloc b @ rest) [] = Inr r"
    and "sr_scheme r = sr_scheme b" and "sr_netloc r = sr_netloc b"
    by blast
  with j s show ?thesis by (simp add: netloc_of_def scheme_of_def)
qed

lemma example_base_split:
  "urlsplit example_py ''https://cveawg.mitre.org/api/'' []
     = Inr \<lparr>sr_scheme = ''https'', sr_netloc = ''cveawg.mitre.org'', sr_path = ''/api/'',
            sr_query = [], sr_fragment = []\<rparr>"
  by code_simp

lemma example_relative_ref: "relative_ref ''../../other/./cve-id?x=1#frag''"
  by code_simp

lemma example_relative_join:
  "urljoin example_py ''https://cveawg.mitre.org/api/'' ''../../other/./cve-id?x=1#frag''
     = Inr ''https://cveawg.mitre.org/other/cve-id?x=1#frag''"
  by code_simp

theorem urljoin_same_host_witness:
  "urljoin example_py (url (example_client True)) ''../../other/./cve-id?x=1#frag''
     = Inr ''https://cveawg.mitre.org/other/cve-id?x=1#frag''
   \<and> netloc_of example_py ''https://cveawg.mitre.org/other/cve-id?x=1#frag''
     = Some ''cveawg.mitre.org''
   \<and> scheme_of example_py ''https://cveawg.mitre.org/other/cve-id?x=1#frag'' = Some ''https''"
  using urljoin_same_host [where py = example_py and self = "example_client True"
      and path = "''../../other/./cve-id?x=1#frag''"
      and b = "\<lparr>sr_scheme = ''https'', sr_netloc = ''cveawg.mitre.org'', sr_path = ''/api/'',
            sr_query = [], sr_fragment = []\<rparr>"]
    example_base_split example_relative_ref example_relative_join
  by (simp add: example_url uses_relative_def uses_netloc_def)

text \<open>
  The claim as stated fails: \<^verbatim>\<open>http_request\<close> passes the path to \<^verbatim>\<open>urljoin\<close> as it is,
  and a path that starts with \<^verbatim>\<open>//\<close> names its own host. The request then goes to that
  host and not to the host of the base URL.
\<close>

theorem urljoin_other_host_counterexample:
  "urljoin example_py (url (example_client True)) ''//evil.example/cve-id''
     = Inr ''https://evil.example/cve-id''
   \<and> netloc_of example_py ''https://evil.example/cve-id'' = Some ''evil.example''
   \<and> netloc_of example_py (url (example_client True)) = Some ''cveawg.mitre.org''
   \<and> http_request example_py (example_client True)
        (\<lambda>req. Responds (example_response 200 ''OK'' [] None req))
        ''get'' ''//evil.example/cve-id'' None
      = Inr \<lparr>status_code = 200, reason = ''OK'', resp_url = ''https://evil.example/cve-id'',
             content = [], body_json = None\<rparr>"
  by code_simp

section \<open>The requests of \<^verbatim>\<open>reserve\<close> and \<^verbatim>\<open>list_cves\<close>\<close>

lemma http_request_eq:
  "http_request py self t verb path kw =
     (case urljoin py (url self) path of
        Inl e \<Rightarrow> Inl e
      | Inr u \<Rightarrow> respond py self (t (build_request self verb u kw)))"
  by (simp add: http_request_def respond_def raise_for_status_eq
      split: sum.splits net_outcome.splits)


text \<open>
  Claim C7. Every call of \<^verbatim>\<open>reserve\<close> joins the path \<^verbatim>\<open>cve-id\<close> to the base URL and
  sends one POST request whose parameters are those of \<open>reserve_params\<close>; its result
  is what \<^verbatim>\<open>http_request\<close> makes of the answer to that request. These parameters have
  no \<^verbatim>\<open>batch_type\<close> when the count is 1, \<^verbatim>\<open>batch_type=nonsequential\<close> when the count is
  above 1 and \<open>random\<close> holds, \<^verbatim>\<open>batch_type=sequential\<close> when the count is above 1 and
  \<open>random\<close> does not hold, and always \<^verbatim>\<open>cve_year\<close>, \<^verbatim>\<open>amount\<close> and \<^verbatim>\<open>short_name\<close>
  with the values given.
\<close>

theorem reserve_request_params:
  "reserve py self t count random year owning_cna =
     (case urljoin py (url self) ''cve-id'' of
        Inl e \<Rightarrow> Inl e
      | Inr u \<Rightarrow>
          respond py self
            (t (build_request self ''post'' u
                  (Some (reserve_params count random year owning_cna)))))
   \<and> (count = 1 \<longrightarrow> reserve_params count random year owning_cna ''batch_type'' = None)
   \<and> (count > 1 \<and> random \<longrightarrow>
        reserve_params count random year owning_cna ''batch_type'' = Some (JStr ''nonsequential''))
   \<and> (count > 1 \<and> \<not> random \<longrightarrow>
        reserve_params count random year owning_cna ''batch_type'' = Some (JStr ''sequential''))
   \<and> reserve_params count random year owning_cna ''cve_year'' = Some year
   \<and> reserve_params count random year owning_cna ''amount'' = Some (JNum count)
   \<and> reserve_params count random year owning_cna ''short_name'' = Some owning_cna"
proof (intro conjI)
  show "reserve py self t count random year owning_cna =
     (case urljoin py (url self) ''cve-id'' of
        Inl e \<Rightarrow> Inl e
      | Inr u \<Rightarrow>
          respond py self
            (t (build_request self ''post'' u
                  (Some (reserve_params count random year owning_cna)))))"
    by (simp add: reserve_def post_def http_request_eq)
qed (simp_all add: reserve_params_def Let_def)

lemma respond_echo_param:
  "respond example_py (example_client True)
     (echo_param k (build_request self' verb u (Some ps)))
   = Inr \<lparr>status_code = 200, reason = ''OK'', resp_url = u, content = [], body_json = ps k\<rparr>"
  by (simp add: respond_def echo_param_def example_response_def build_request_def
      error_status_def)

theorem reserve_request_params_witness:
  "reserve example_py (example_client True) (echo_param ''batch_type'') 1 True
       (JNum 2021) (JStr ''acme'')
     = Inr \<lparr>status_code = 200, reason = ''OK'',
            resp_url = ''https://cveawg.mitre.org/api/cve-id'', content = [], body_json = None\<rparr>
   \<and> reserve example_py (example_client True) (echo_param ''batch_type'') 5 True
       (JNum 2021) (JStr ''acme'')
     = Inr \<lparr>status_code = 200, reason = ''OK'',
            resp_url = ''https://cveawg.mitre.org/api/cve-id'', content = [],
            body_json = Some (JStr ''nonsequential'')\<rparr>
   \<and> reserve example_py (example_client True) (echo_param ''batch_type'') 5 False
       (JNum 2021) (JStr ''acme'')
     = Inr \<lparr>status_code = 200, reason = ''OK'',
            resp_url = ''https://cveawg.mitre.org/api/cve-id'', content = [],
            body_json = Some (JStr ''sequential'')\<rparr>
   \<and> reserve example_py (example_client True) (echo_param ''amount'') 5 False
       (JNum 2021) (JStr ''acme'')
     = Inr \<lparr>status_code = 200, reason = ''OK'',
            resp_url = ''https://cveawg.mitre.org/api/cve-id'', content = [],
            body_json = Some (JNum 5)\<rparr>"
  using reserve_request_params [of example_py "example_client True" "echo_param ''batch_type''"
      1 True "JNum 2021" "JStr ''acme''"]
    reserve_request_params [of example_py "example_client True" "echo_param ''batch_type''"
      5 True "JNum 2021" "JStr ''acme''"]
    reserve_request_params [of example_py "example_client True" "echo_param ''batch_type''"
      5 False "JNum 2021" "JStr ''acme''"]
    reserve_request_params [of example_py "example_client True" "echo_param ''amount''"
      5 False "JNum 2021" "JStr ''acme''"]
  by (simp add: example_url example_urljoin respond_echo_param)






end
